theory Spec2Isabelle
  imports Complex_Main "HOL-Library.Word"
begin

section \<open>Python and numpy primitives used by the model\<close>

text \<open>
  The exceptions the booking code can raise: \<open>IndexError\<close> (an index out of range, a
  boolean mask of the wrong length, \<^verbatim>\<open>np.where(...)[0][0]\<close> on an empty result) and
  \<open>ValueError\<close> (\<^verbatim>\<open>np.argmax\<close> of an empty sequence, \<^verbatim>\<open>random.randint\<close> on an empty
  range, operands of different shapes, a negative simpy delay) and \<open>UnboundLocalError\<close>
  (a local variable read before it is assigned).
\<close>

datatype error = IndexError | ValueError | UnboundLocalError

type_synonym uint8 = "8 word"

text \<open>The slice \<^verbatim>\<open>a[k:]\<close>: a negative start counts from the end and is clipped at 0.\<close>

definition py_slice_from :: "int \<Rightarrow> 'a list \<Rightarrow> 'a list" where
  "py_slice_from k xs = drop (nat (if k < 0 then int (length xs) + k else k)) xs"

text \<open>An index \<open>i\<close> into a sequence of length \<open>n\<close>: negative indices count from the end.\<close>

definition py_index :: "nat \<Rightarrow> int \<Rightarrow> error + nat" where
  "py_index n i =
     (let j = (if i < 0 then int n + i else i)
      in if 0 \<le> j \<and> j < int n then Inr (nat j) else Inl IndexError)"

text \<open>\<^verbatim>\<open>np.where(row == 1)[0]\<close>: the positions holding 1, in increasing order.\<close>

definition where_eq_one :: "int list \<Rightarrow> nat list" where
  "where_eq_one row = filter (\<lambda>j. row ! j = 1) [0..<length row]"

text \<open>The position of the first element satisfying \<open>P\<close>.\<close>

fun first_index :: "('a \<Rightarrow> bool) \<Rightarrow> 'a list \<Rightarrow> nat option" where
  "first_index P [] = None"
| "first_index P (x # xs) = (if P x then Some 0 else map_option Suc (first_index P xs))"

text \<open>
  \<^verbatim>\<open>np.argmax(b)\<close> on a boolean vector: the first \<open>True\<close>, 0 when there is none, and
  ValueError on an empty vector.
\<close>

definition np_argmax :: "bool list \<Rightarrow> error + nat" where
  "np_argmax bs =
     (if bs = [] then Inl ValueError
      else Inr (case first_index (\<lambda>b. b) bs of None \<Rightarrow> 0 | Some i \<Rightarrow> i))"

text \<open>
  \<^verbatim>\<open>random.randint(0, n - 1)\<close> on the module-level generator of \<^verbatim>\<open>random\<close>. The generator
  is never seeded by the program, so its raw draw \<open>r\<close> is an input of its own; it is
  reduced to the range \<open>0..n-1\<close>. An empty range raises ValueError.
\<close>

definition py_randint :: "nat \<Rightarrow> nat \<Rightarrow> error + nat" where
  "py_randint r n = (if n = 0 then Inl ValueError else Inr (r mod n))"

text \<open>
  \<^verbatim>\<open>df.iat[i, j] = f(df.iat[i, j])\<close> on a matrix stored as a list of rows (days) of
  columns (clinicians).
\<close>

definition iat_get :: "'a list list \<Rightarrow> int \<Rightarrow> nat \<Rightarrow> error + 'a" where
  "iat_get m i j =
     (case py_index (length m) i of
        Inl e \<Rightarrow> Inl e
      | Inr r \<Rightarrow> if j < length (m ! r) then Inr (m ! r ! j) else Inl IndexError)"

definition cell_update :: "('a \<Rightarrow> 'a) \<Rightarrow> 'a list list \<Rightarrow> nat \<Rightarrow> nat \<Rightarrow> 'a list list" where
  "cell_update f m r j = m[r := (m ! r)[j := f (m ! r ! j)]]"

definition iat_update :: "('a \<Rightarrow> 'a) \<Rightarrow> 'a list list \<Rightarrow> int \<Rightarrow> nat \<Rightarrow> error + 'a list list" where
  "iat_update f m i j =
     (case py_index (length m) i of
        Inl e \<Rightarrow> Inl e
      | Inr r \<Rightarrow> if j < length (m ! r) then Inr (cell_update f m r j) else Inl IndexError)"

text \<open>
  An elementwise operation of two numpy vectors: equal lengths, or one of them of length
  one (which is broadcast); any other pair of shapes raises ValueError.
\<close>

definition np_broadcast2 :: "('a \<Rightarrow> 'b \<Rightarrow> 'c) \<Rightarrow> 'a list \<Rightarrow> 'b list \<Rightarrow> error + 'c list" where
  "np_broadcast2 f xs ys =
     (if length xs = length ys then Inr (map2 f xs ys)
      else if length xs = 1 then Inr (map (f (hd xs)) ys)
      else if length ys = 1 then Inr (map (\<lambda>x. f x (hd ys)) xs)
      else Inl ValueError)"

section \<open>Module constants\<close>

definition ANNUAL_DEMAND :: int where "ANNUAL_DEMAND = 1500"
definition LOW_PRIORITY_MIN_WAIT :: int where "LOW_PRIORITY_MIN_WAIT = 7"
definition HIGH_PRIORITY_MIN_WAIT :: int where "HIGH_PRIORITY_MIN_WAIT = 2"
definition LOW_INTENSITY_FOLLOW_UP_TARGET_INTERVAL :: int where
  "LOW_INTENSITY_FOLLOW_UP_TARGET_INTERVAL = 14"
definition HIGH_INTENSITY_FOLLOW_UP_TARGET_INTERVAL :: int where
  "HIGH_INTENSITY_FOLLOW_UP_TARGET_INTERVAL = 7"
definition TARGET_HIGH :: int where "TARGET_HIGH = 5"
definition TARGET_LOW :: int where "TARGET_LOW = 20"
definition BOOKING_TIME_THRESHOLD :: int where "BOOKING_TIME_THRESHOLD = 4 * 7"

section \<open>The scenario and its diaries\<close>

text \<open>
  The fields of \<^verbatim>\<open>Scenario\<close> the booking code reads and writes. A diary is a list of
  day rows, each a list with one entry per clinician. \<^verbatim>\<open>carve_out_slots\<close> and
  \<^verbatim>\<open>bookings\<close> are built with \<^verbatim>\<open>np.uint8\<close>. \<^verbatim>\<open>available_slots\<close> is
  \<^verbatim>\<open>capacity_template - priority_template\<close>, the integer table read from the shifts
  file minus a \<^verbatim>\<open>uint8\<close> table: numpy promotes that difference to the table's signed
  64-bit type, whose wrap-around no run can reach, so its entries are integers.
  \<^verbatim>\<open>existing_caseload\<close> holds the clinicians' entries (the row without its label
  column); it moves in steps of one half.
\<close>

record scenario =
  run_length :: int
  warm_up_period :: int
  weekly_slots :: "int list list"
  pooling_np :: "int list list"
  existing_caseload :: "rat list"
  carve_out_slots :: "uint8 list list"
  available_slots :: "int list list"
  bookings :: "uint8 list list"

text \<open>
  The loop \<^verbatim>\<open>for day in range(int(run_length*1.5)): slots = pd.concat([slots, template])\<close>
  started from a copy of the template.
\<close>

fun extend_diary :: "nat \<Rightarrow> 'a list \<Rightarrow> 'a list \<Rightarrow> 'a list" where
  "extend_diary 0 template slots = slots"
| "extend_diary (Suc n) template slots = extend_diary n template (slots @ template)"

text \<open>\<^verbatim>\<open>range(int(run_length*1.5))\<close> has this many elements (none for a negative bound).\<close>

definition diary_iterations :: "int \<Rightarrow> nat" where
  "diary_iterations rl = nat ((3 * rl) div 2)"

text \<open>
  \<open>round_carve\<close> stands for the elementwise \<^verbatim>\<open>(x * prop_carve_out).round().astype(np.uint8)\<close>,
  which is computed in floating point.
\<close>

definition create_carve_out :: "(int \<Rightarrow> uint8) \<Rightarrow> int \<Rightarrow> int list list \<Rightarrow> uint8 list list" where
  "create_carve_out round_carve rl capacity_template =
     (let priority_template = map (map round_carve) capacity_template
      in extend_diary (diary_iterations rl) priority_template priority_template)"

definition create_slots :: "(int \<Rightarrow> uint8) \<Rightarrow> int \<Rightarrow> int list list \<Rightarrow> int list list" where
  "create_slots round_carve rl capacity_template =
     (let open_template = map (map (\<lambda>x. x - uint (round_carve x))) capacity_template
      in extend_diary (diary_iterations rl) open_template open_template)"

definition create_bookings :: "int \<Rightarrow> nat \<Rightarrow> uint8 list list" where
  "create_bookings rl clinics =
     (let bookings_template = replicate 5 (replicate clinics (0 :: uint8))
      in extend_diary (diary_iterations rl) bookings_template bookings_template)"

text \<open>
  \<^verbatim>\<open>Scenario.__init__\<close>, for the fields above. The number of clinicians is
  \<^verbatim>\<open>len(self.weekly_slots.columns)\<close>.
\<close>

definition n_columns :: "'a list list \<Rightarrow> nat" where
  "n_columns m = (case m of [] \<Rightarrow> 0 | row # _ \<Rightarrow> length row)"

definition Scenario ::
  "int \<Rightarrow> int \<Rightarrow> (int \<Rightarrow> uint8) \<Rightarrow> int list list \<Rightarrow> int list list \<Rightarrow> rat list \<Rightarrow> scenario" where
  "Scenario rl warm_up round_carve slots_file pooling caseload =
     \<lparr> run_length = rl,
       warm_up_period = warm_up,
       weekly_slots = slots_file,
       pooling_np = pooling,
       existing_caseload = caseload,
       carve_out_slots = create_carve_out round_carve rl slots_file,
       available_slots = create_slots round_carve rl slots_file,
       bookings = create_bookings rl (n_columns slots_file) \<rparr>"

section \<open>The bookers\<close>

datatype booker_kind = LowPriorityPooled | HighPriorityPooled

text \<open>
  A pooled booker is an instance of one of the two classes; \<^verbatim>\<open>min_wait\<close> is its only
  attribute that is ever assigned after construction. \<^verbatim>\<open>priority\<close> is set by the
  constructor of the class (1 for the low priority booker, 2 for the high priority one).
\<close>

record booker =
  kind :: booker_kind
  min_wait :: int

definition priority :: "booker \<Rightarrow> nat" where
  "priority b = (case kind b of LowPriorityPooled \<Rightarrow> 1 | HighPriorityPooled \<Rightarrow> 2)"

definition LowPriorityPooledBooker :: booker where
  "LowPriorityPooledBooker = \<lparr> kind = LowPriorityPooled, min_wait = LOW_PRIORITY_MIN_WAIT \<rparr>"

definition HighPriorityPooledBooker :: booker where
  "HighPriorityPooledBooker = \<lparr> kind = HighPriorityPooled, min_wait = 1 \<rparr>"

record repeat_booker =
  ideal_frequency :: int
  clinic_id :: nat
  repeat_min_wait :: int
  repeat_priority :: nat

definition RepeatBooker :: "int \<Rightarrow> nat \<Rightarrow> repeat_booker" where
  "RepeatBooker freq c =
     \<lparr> ideal_frequency = freq, clinic_id = c, repeat_min_wait = freq - 1, repeat_priority = 1 \<rparr>"

text \<open>
  \<^verbatim>\<open>clinic_options = np.where(pooling_np[clinic_id] == 1)[0]\<close> followed by
  \<^verbatim>\<open>clinic_options[limit_clinic_choice]\<close>. A list of booleans is a boolean mask, which
  must have the length of \<^verbatim>\<open>clinic_options\<close>; the default \<^verbatim>\<open>None\<close> keeps every
  option (and adds an axis, see \<open>pooled_choice\<close>).
\<close>

definition clinic_options_of :: "int list list \<Rightarrow> nat \<Rightarrow> bool list option \<Rightarrow> error + nat list" where
  "clinic_options_of pooling c limit_clinic_choice =
     (if length pooling \<le> c then Inl IndexError
      else
        let clinic_options = where_eq_one (pooling ! c)
        in case limit_clinic_choice of
             None \<Rightarrow> Inr clinic_options
           | Some choice \<Rightarrow>
               if choice = [] \<or> length choice \<noteq> length clinic_options then Inl IndexError
               else Inr (map fst (filter snd (zip clinic_options choice))))"

text \<open>\<^verbatim>\<open>diary_np[k:, clinic_options]\<close>: the rows from \<open>k\<close> on, the chosen columns of each.\<close>

definition window_columns :: "int \<Rightarrow> nat list \<Rightarrow> 'a list list \<Rightarrow> error + 'a list list" where
  "window_columns k clinic_options m =
     (if \<exists>row \<in> set m. \<exists>j \<in> set clinic_options. length row \<le> j then Inl IndexError
      else Inr (map (\<lambda>row. map (\<lambda>j. row ! j) clinic_options) (py_slice_from k m)))"

text \<open>
  The common tail of the two pooled \<^verbatim>\<open>find_slot\<close> methods, on the window
  \<^verbatim>\<open>clinic_slots\<close>:
  \<^verbatim>\<open>best_t = np.where(clinic_slots.sum(axis=1) > 0)[0][0]\<close>, then a uniform draw among
  \<^verbatim>\<open>clinic_options[clinic_slots[best_t, :] > 0]\<close>.
  With a mask, \<^verbatim>\<open>clinic_options\<close> is one-dimensional, \<^verbatim>\<open>clinic_slots\<close> is days by
  options and \<^verbatim>\<open>sum(axis=1)\<close> is the row sum. Without one, \<^verbatim>\<open>clinic_options[None]\<close>
  has shape \<open>(1, n)\<close>, \<^verbatim>\<open>clinic_slots\<close> has shape \<open>(days, 1, n)\<close>, \<^verbatim>\<open>sum(axis=1)\<close>
  sums over the axis of length one and keeps every entry, and the first index of
  \<^verbatim>\<open>np.where\<close> is the first day on which some entry is positive.
\<close>

definition day_has_slot :: "bool \<Rightarrow> int list \<Rightarrow> bool" where
  "day_has_slot masked row = (if masked then 0 < sum_list row else \<exists>v \<in> set row. 0 < v)"

definition pooled_choice :: "nat \<Rightarrow> bool \<Rightarrow> nat list \<Rightarrow> int list list \<Rightarrow> error + (nat \<times> nat)" where
  "pooled_choice r masked clinic_options clinic_slots =
     (case first_index (day_has_slot masked) clinic_slots of
        None \<Rightarrow> Inl IndexError
      | Some best_t \<Rightarrow>
          let candidates =
                map fst (filter (\<lambda>(j, v). 0 < v) (zip clinic_options (clinic_slots ! best_t)))
          in (case py_randint r (length candidates) of
                Inl e \<Rightarrow> Inl e
              | Inr clinic_sample \<Rightarrow> Inr (best_t, (candidates ! clinic_sample))))"

definition LowPriorityPooledBooker_find_slot ::
  "scenario \<Rightarrow> booker \<Rightarrow> nat \<Rightarrow> int \<Rightarrow> nat \<Rightarrow> bool list option \<Rightarrow> error + (int \<times> nat)" where
  "LowPriorityPooledBooker_find_slot s b r t c limit_clinic_choice =
     (case clinic_options_of (pooling_np s) c limit_clinic_choice of
        Inl e \<Rightarrow> Inl e
      | Inr clinic_options \<Rightarrow>
          (case window_columns (t + min_wait b) clinic_options (available_slots s) of
             Inl e \<Rightarrow> Inl e
           | Inr clinic_slots \<Rightarrow>
               (case pooled_choice r (limit_clinic_choice \<noteq> None) clinic_options clinic_slots of
                  Inl e \<Rightarrow> Inl e
                | Inr (best_t, best_clinic_idx) \<Rightarrow>
                    Inr (int best_t + min_wait b + t, best_clinic_idx))))"

definition LowPriorityPooledBooker_book_slot :: "scenario \<Rightarrow> int \<Rightarrow> nat \<Rightarrow> error + scenario" where
  "LowPriorityPooledBooker_book_slot s booking_t c =
     (case iat_update (\<lambda>v. v - 1) (available_slots s) booking_t c of
        Inl e \<Rightarrow> Inl e
      | Inr av \<Rightarrow>
          (case iat_update (\<lambda>v. v + 1) (bookings s) booking_t c of
             Inl e \<Rightarrow> Inl e
           | Inr bk \<Rightarrow> Inr (s\<lparr>available_slots := av, bookings := bk\<rparr>)))"

text \<open>
  \<^verbatim>\<open>clinic_slots = priority_slots + public_slots\<close> adds a \<^verbatim>\<open>uint8\<close> window and an
  integer window of the same shape; the sum has the integer type.
\<close>

definition add_windows :: "uint8 list list \<Rightarrow> int list list \<Rightarrow> error + int list list" where
  "add_windows priority_slots public_slots =
     np_broadcast2 (map2 (\<lambda>p a. uint p + a)) priority_slots public_slots"

definition HighPriorityPooledBooker_find_slot ::
  "scenario \<Rightarrow> booker \<Rightarrow> nat \<Rightarrow> int \<Rightarrow> nat \<Rightarrow> bool list option \<Rightarrow> error + (int \<times> nat)" where
  "HighPriorityPooledBooker_find_slot s b r t c limit_clinic_choice =
     (case clinic_options_of (pooling_np s) c limit_clinic_choice of
        Inl e \<Rightarrow> Inl e
      | Inr clinic_options \<Rightarrow>
          (case window_columns (t + min_wait b) clinic_options (available_slots s) of
             Inl e \<Rightarrow> Inl e
           | Inr public_slots \<Rightarrow>
               (case window_columns (t + min_wait b) clinic_options (carve_out_slots s) of
                  Inl e \<Rightarrow> Inl e
                | Inr priority_slots \<Rightarrow>
                    (case add_windows priority_slots public_slots of
                       Inl e \<Rightarrow> Inl e
                     | Inr clinic_slots \<Rightarrow>
                         (case pooled_choice r (limit_clinic_choice \<noteq> None)
                                 clinic_options clinic_slots of
                            Inl e \<Rightarrow> Inl e
                          | Inr (best_t, best_clinic_idx) \<Rightarrow>
                              Inr (int best_t + min_wait b + t, best_clinic_idx))))))"

definition HighPriorityPooledBooker_book_slot :: "scenario \<Rightarrow> int \<Rightarrow> nat \<Rightarrow> error + scenario" where
  "HighPriorityPooledBooker_book_slot s booking_t c =
     (case iat_get (carve_out_slots s) booking_t c of
        Inl e \<Rightarrow> Inl e
      | Inr carve \<Rightarrow>
          (case (if 0 < carve
                 then (case iat_update (\<lambda>v. v - 1) (carve_out_slots s) booking_t c of
                         Inl e \<Rightarrow> Inl e
                       | Inr co \<Rightarrow> Inr (s\<lparr>carve_out_slots := co\<rparr>))
                 else (case iat_update (\<lambda>v. v - 1) (available_slots s) booking_t c of
                         Inl e \<Rightarrow> Inl e
                       | Inr av \<Rightarrow> Inr (s\<lparr>available_slots := av\<rparr>))) of
             Inl e \<Rightarrow> Inl e
           | Inr s1 \<Rightarrow>
               (case iat_update (\<lambda>v. v + 1) (bookings s1) booking_t c of
                  Inl e \<Rightarrow> Inl e
                | Inr bk \<Rightarrow> Inr (s1\<lparr>bookings := bk\<rparr>))))"

definition RepeatBooker_find_slot :: "scenario \<Rightarrow> repeat_booker \<Rightarrow> int \<Rightarrow> error + (int \<times> nat)" where
  "RepeatBooker_find_slot s b t =
     (case window_columns (t + repeat_min_wait b) [clinic_id b] (available_slots s) of
        Inl e \<Rightarrow> Inl e
      | Inr clinic_slots \<Rightarrow>
          (case np_argmax (map (\<lambda>row. 0 < hd row) clinic_slots) of
             Inl e \<Rightarrow> Inl e
           | Inr best \<Rightarrow> Inr (int best + repeat_min_wait b + t, clinic_id b)))"

definition RepeatBooker_book_slot :: "scenario \<Rightarrow> repeat_booker \<Rightarrow> int \<Rightarrow> error + scenario" where
  "RepeatBooker_book_slot s b booking_t =
     (case iat_update (\<lambda>v. v - 1) (available_slots s) booking_t (clinic_id b) of
        Inl e \<Rightarrow> Inl e
      | Inr av \<Rightarrow>
          (case iat_update (\<lambda>v. v + 1) (bookings s) booking_t (clinic_id b) of
             Inl e \<Rightarrow> Inl e
           | Inr bk \<Rightarrow> Inr (s\<lparr>available_slots := av, bookings := bk\<rparr>)))"

section \<open>The patient pathway\<close>

datatype event_type = arrival_departure | queue

datatype event_name =
    arrival
  | waiting_appointment_to_be_scheduled
  | appointment_booked_waiting
  | have_appointment
  | follow_up_appointment_booked_waiting
  | referred_out
  | depart

datatype appointment_type = assessment | follow_up_appointment

text \<open>
  An entry of the event log: the keys of the dictionaries the code appends, absent keys
  being \<open>None\<close>. \<open>ev_pathway\<close> is the priority, or \<open>None\<close> for the text
  \<^verbatim>\<open>"Unsuitable for service"\<close>; \<open>ev_follow_up_intensity\<close> is \<open>True\<close> for \<^verbatim>\<open>'high'\<close>.
\<close>

record event =
  ev_patient :: "int \<times> nat"
  ev_pathway :: "nat option"
  ev_event_type :: event_type
  ev_event :: event_name
  ev_home_clinic :: nat
  ev_booked_clinic :: "nat option"
  ev_time :: int
  ev_type :: "appointment_type option"
  ev_wait :: "int option"
  ev_follow_up :: "nat option"
  ev_follow_up_intensity :: "bool option"
  ev_follow_ups_intended :: "int option"
  ev_interval :: "int option"

text \<open>The attributes of a \<^verbatim>\<open>PatientReferral\<close>; \<open>patient_id\<close> is the
  attribute \<^verbatim>\<open>identifier\<close>, the text \<^verbatim>\<open>f"{t}_{i}"\<close> as the pair of its numbers.\<close>

record patient_referral =
  referral_t :: int
  home_clinic :: nat
  booked_clinic :: nat
  booker :: booker
  patient_id :: "int \<times> nat"
  waiting_time :: "int option"
  follow_up_intensity :: "nat option"

definition PatientReferral :: "int \<Rightarrow> nat \<Rightarrow> booker \<Rightarrow> int \<times> nat \<Rightarrow> patient_referral" where
  "PatientReferral t home b ident =
     \<lparr> referral_t = t, home_clinic = home, booked_clinic = home, booker = b,
       patient_id = ident, waiting_time = None, follow_up_intensity = None \<rparr>"

text \<open>
  What one resumption of a pathway reads from outside the diaries: the draw of the
  module-level generator used for the tie-break, and the samples of the scenario's
  distributions (whether follow-ups are needed, their intensity, and
  \<^verbatim>\<open>int(num_follow_up_dist.sample())\<close>). The distribution classes are imported from
  a module outside these sources; their samples are inputs.
\<close>

record draws =
  tie_break :: nat
  follow_up_y :: nat
  intensity :: nat
  num_follow_ups :: int

text \<open>
  The points at which \<^verbatim>\<open>execute\<close> is suspended: before its first statement, at the
  one-day delay of a low priority patient, at the one-day delays of the wait for
  caseload headroom, at the wait for the assessment (holding \<^verbatim>\<open>best_t\<close>) and at the
  wait for a follow-up appointment (holding the repeat booker, \<^verbatim>\<open>i\<close>, \<^verbatim>\<open>num_appts\<close>
  and \<^verbatim>\<open>interval\<close>).
\<close>

datatype pstate =
    Start
  | AntiLeapfrog
  | AwaitHeadroom
  | AwaitAssessment int
  | AwaitFollowUp repeat_booker nat int int

datatype outcome = Raised error | Yield int pstate | Return

type_synonym step = "scenario \<times> patient_referral \<times> event list \<times> outcome"

text \<open>\<^verbatim>\<open>yield self.env.timeout(delay)\<close>: simpy refuses a negative delay.\<close>

definition timeout :: "int \<Rightarrow> pstate \<Rightarrow> outcome" where
  "timeout delay k = (if delay < 0 then Raised ValueError else Yield delay k)"

definition log_entry :: "patient_referral \<Rightarrow> event_type \<Rightarrow> event_name \<Rightarrow> int \<Rightarrow> event" where
  "log_entry p ty nm now =
     \<lparr> ev_patient = patient_id p, ev_pathway = Some (priority (booker p)),
       ev_event_type = ty, ev_event = nm, ev_home_clinic = home_clinic p,
       ev_booked_clinic = None, ev_time = now, ev_type = None, ev_wait = None,
       ev_follow_up = None, ev_follow_up_intensity = None,
       ev_follow_ups_intended = None, ev_interval = None \<rparr>"

definition booked_entry :: "patient_referral \<Rightarrow> event_name \<Rightarrow> int \<Rightarrow> event" where
  "booked_entry p nm now = (log_entry p queue nm now)\<lparr>ev_booked_clinic := Some (booked_clinic p)\<rparr>"

definition follow_up_entry :: "patient_referral \<Rightarrow> event_name \<Rightarrow> int \<Rightarrow> nat \<Rightarrow> int \<Rightarrow> event" where
  "follow_up_entry p nm now i num_appts =
     (booked_entry p nm now)
       \<lparr> ev_follow_up := Some i,
         ev_follow_up_intensity := Some (follow_up_intensity p = Some 1),
         ev_follow_ups_intended := Some num_appts \<rparr>"

definition find_slot ::
  "scenario \<Rightarrow> booker \<Rightarrow> nat \<Rightarrow> int \<Rightarrow> nat \<Rightarrow> bool list option \<Rightarrow> error + (int \<times> nat)" where
  "find_slot s b r t c limit_clinic_choice =
     (case kind b of
        LowPriorityPooled \<Rightarrow> LowPriorityPooledBooker_find_slot s b r t c limit_clinic_choice
      | HighPriorityPooled \<Rightarrow> HighPriorityPooledBooker_find_slot s b r t c limit_clinic_choice)"

definition book_slot :: "scenario \<Rightarrow> booker \<Rightarrow> int \<Rightarrow> nat \<Rightarrow> error + scenario" where
  "book_slot s b booking_t c =
     (case kind b of
        LowPriorityPooled \<Rightarrow> LowPriorityPooledBooker_book_slot s booking_t c
      | HighPriorityPooled \<Rightarrow> HighPriorityPooledBooker_book_slot s booking_t c)"

text \<open>\<^verbatim>\<open>self.args.weekly_slots.sum()\<close>: the sum of every column.\<close>

definition column_sums :: "int list list \<Rightarrow> int list" where
  "column_sums m = map (\<lambda>j. sum_list (map (\<lambda>row. row ! j) m)) [0..<n_columns m]"

definition check_for_availability :: "scenario \<Rightarrow> error + (nat \<times> rat list)" where
  "check_for_availability s =
     (case np_broadcast2 (\<lambda>slots load. of_int slots - load - 1)
             (column_sums (weekly_slots s)) (existing_caseload s) of
        Inl e \<Rightarrow> Inl e
      | Inr available_caseload \<Rightarrow>
          Inr (length (filter (\<lambda>c. 0 < c) available_caseload), available_caseload))"

text \<open>\<^verbatim>\<open>self.args.existing_caseload[1:].iloc[int(self.booked_clinic)] += x\<close>\<close>

definition caseload_add :: "scenario \<Rightarrow> nat \<Rightarrow> rat \<Rightarrow> error + scenario" where
  "caseload_add s c x =
     (if c < length (existing_caseload s)
      then Inr (s\<lparr>existing_caseload := (existing_caseload s)[c := existing_caseload s ! c + x]\<rparr>)
      else Inl IndexError)"

text \<open>
  The end of \<^verbatim>\<open>execute\<close>: the caseload is released according to the intensity of the
  follow-ups, and the departure is logged for the next day.
\<close>

definition discharge :: "scenario \<Rightarrow> int \<Rightarrow> patient_referral \<Rightarrow> event list \<Rightarrow> step" where
  "discharge s now p evs =
     (case (if follow_up_intensity p = Some 1 then caseload_add s (booked_clinic p) (- 1)
            else if follow_up_intensity p = Some 0 then caseload_add s (booked_clinic p) (- (1 / 2))
            else Inr s) of
        Inl e \<Rightarrow> (s, p, evs, Raised e)
      | Inr s1 \<Rightarrow> (s1, p, evs @ [log_entry p arrival_departure depart (now + 1)], Return))"

text \<open>
  The loop \<^verbatim>\<open>for i in range(num_appts)\<close> from the test of its iteration \<open>i\<close> to the next
  suspension: the repeat booker finds and books a slot, the booking is logged and the
  pathway waits for the day; after the last iteration the patient is discharged.
\<close>

definition follow_up_loop ::
  "scenario \<Rightarrow> int \<Rightarrow> patient_referral \<Rightarrow> event list \<Rightarrow> repeat_booker \<Rightarrow> nat \<Rightarrow> int \<Rightarrow> step" where
  "follow_up_loop s now p evs rb i num_appts =
     (if int i < num_appts then
        (case RepeatBooker_find_slot s rb now of
           Inl e \<Rightarrow> (s, p, evs, Raised e)
         | Inr (best_t, clinic) \<Rightarrow>
             (case RepeatBooker_book_slot s rb best_t of
                Inl e \<Rightarrow> (s, p, evs, Raised e)
              | Inr s1 \<Rightarrow>
                  (s1, p,
                   evs @ [follow_up_entry p follow_up_appointment_booked_waiting now i num_appts],
                   timeout (best_t - now) (AwaitFollowUp rb i num_appts (best_t - now)))))
      else discharge s now p evs)"

text \<open>
  The resumption on the day of the assessment: the waiting time is recorded, the
  appointment is logged, and the follow-ups are sampled and started.
\<close>

definition attend_assessment :: "scenario \<Rightarrow> int \<Rightarrow> draws \<Rightarrow> patient_referral \<Rightarrow> int \<Rightarrow> step" where
  "attend_assessment s now d p best_t =
     (let p1 = p\<lparr>waiting_time := Some (best_t - referral_t p)\<rparr>;
          evs = [(booked_entry p1 have_appointment now)
                   \<lparr>ev_type := Some assessment, ev_wait := waiting_time p1\<rparr>]
      in if follow_up_y d \<noteq> 0 then
           (let p2 = p1\<lparr>follow_up_intensity := Some (intensity d)\<rparr>
            in case (if intensity d = 0 \<and> priority (booker p2) = 2
                     then caseload_add s (booked_clinic p2) (- (1 / 2)) else Inr s) of
                 Inl e \<Rightarrow> (s, p2, evs, Raised e)
               | Inr s1 \<Rightarrow>
                   (case (if intensity d = 1 \<and> priority (booker p2) = 1
                          then caseload_add s1 (booked_clinic p2) (1 / 2) else Inr s1) of
                      Inl e \<Rightarrow> (s1, p2, evs, Raised e)
                    | Inr s2 \<Rightarrow>
                        follow_up_loop s2 now p2 evs
                          (if intensity d = 1
                           then RepeatBooker HIGH_INTENSITY_FOLLOW_UP_TARGET_INTERVAL (booked_clinic p2)
                           else RepeatBooker LOW_INTENSITY_FOLLOW_UP_TARGET_INTERVAL (booked_clinic p2))
                          0 (num_follow_ups d)))
         else discharge s now p1 evs)"

text \<open>
  The end of the low priority branch, once \<^verbatim>\<open>find_slot\<close> has returned: the slot is
  booked, the booking is logged, the clinician's caseload grows by one and the pathway
  waits \<^verbatim>\<open>best_t - self.referral_t\<close> days.
\<close>

definition book_low_assessment ::
  "scenario \<Rightarrow> int \<Rightarrow> patient_referral \<Rightarrow> int \<Rightarrow> nat \<Rightarrow> step" where
  "book_low_assessment s now p best_t c =
     (let p1 = p\<lparr>booked_clinic := c\<rparr>
      in case book_slot s (booker p1) best_t c of
           Inl e \<Rightarrow> (s, p1, [], Raised e)
         | Inr s1 \<Rightarrow>
             (case caseload_add s1 c 1 of
                Inl e \<Rightarrow> (s1, p1, [booked_entry p1 appointment_booked_waiting now], Raised e)
              | Inr s2 \<Rightarrow>
                  (s2, p1, [booked_entry p1 appointment_booked_waiting now],
                   timeout (best_t - referral_t p1) (AwaitAssessment best_t))))"

definition headroom_mask :: "rat list \<Rightarrow> bool list" where
  "headroom_mask available_caseload = map (\<lambda>c. 0 < c) available_caseload"

text \<open>
  One resumption of \<^verbatim>\<open>PatientReferral.execute\<close> at virtual time \<open>now\<close>, from the
  suspension point \<open>k\<close> to the next \<^verbatim>\<open>yield\<close>, to the end of the generator, or to the
  exception that stops it. It returns the scenario and the patient as mutated and the
  entries appended to the event log.
\<close>

fun execute_step :: "scenario \<Rightarrow> int \<Rightarrow> draws \<Rightarrow> patient_referral \<Rightarrow> pstate \<Rightarrow> step" where
  "execute_step s now d p Start =
     (let evs = [log_entry p arrival_departure arrival now,
                 log_entry p queue waiting_appointment_to_be_scheduled now]
      in if priority (booker p) = 2 then
           (case find_slot s (booker p) (tie_break d) (referral_t p) (home_clinic p) None of
              Inl e \<Rightarrow> (s, p, evs, Raised e)
            | Inr (best_t, c) \<Rightarrow>
                (let p1 = p\<lparr>booked_clinic := c\<rparr>
                 in case book_slot s (booker p1) best_t c of
                      Inl e \<Rightarrow> (s, p1, evs, Raised e)
                    | Inr s1 \<Rightarrow>
                        (s1, p1, evs @ [booked_entry p1 appointment_booked_waiting now],
                         timeout (best_t - referral_t p1) (AwaitAssessment best_t))))
         else if priority (booker p) = 1 then (s, p, evs, timeout 1 AntiLeapfrog)
         else (s, p, evs, Raised UnboundLocalError))"
| "execute_step s now d p AntiLeapfrog =
     (let p1 = p\<lparr>booker := (booker p)\<lparr>min_wait := min_wait (booker p) - 1\<rparr>\<rparr>
      in case check_for_availability s of
           Inl e \<Rightarrow> (s, p1, [], Raised e)
         | Inr (clinicians_with_slots, available_caseload) \<Rightarrow>
             if 0 < clinicians_with_slots then
               (case find_slot s (booker p1) (tie_break d) (referral_t p1) (home_clinic p1)
                       (Some (headroom_mask available_caseload)) of
                  Inl e \<Rightarrow> (s, p1, [], Raised e)
                | Inr (best_t, c) \<Rightarrow> book_low_assessment s now p1 best_t c)
             else
               (s, p1\<lparr>booker := (booker p1)\<lparr>min_wait := min_wait (booker p1) + 1\<rparr>\<rparr>, [],
                timeout 1 AwaitHeadroom))"
| "execute_step s now d p AwaitHeadroom =
     (case check_for_availability s of
        Inl e \<Rightarrow> (s, p, [], Raised e)
      | Inr (clinicians_with_slots, available_caseload) \<Rightarrow>
          if clinicians_with_slots = 0 then (s, p, [], timeout 1 AwaitHeadroom)
          else
            (case find_slot s (booker p) (tie_break d) now (home_clinic p)
                    (Some (headroom_mask available_caseload)) of
               Inl e \<Rightarrow> (s, p, [], Raised e)
             | Inr (best_t, c) \<Rightarrow> book_low_assessment s now p best_t c))"
| "execute_step s now d p (AwaitAssessment best_t) = attend_assessment s now d p best_t"
| "execute_step s now d p (AwaitFollowUp rb i num_appts interval) =
     follow_up_loop s now p
       [(follow_up_entry p have_appointment now i num_appts)
          \<lparr>ev_type := Some follow_up_appointment, ev_interval := Some interval\<rparr>]
       rb (Suc i) num_appts"

text \<open>
  A pathway under the simpy kernel. The process is resumed when its delay has elapsed,
  unless the clock has reached \<^verbatim>\<open>run_length\<close> by then (\<^verbatim>\<open>env.run(until)\<close> stops before
  the events of that time), in which case it is abandoned. Between two resumptions the
  other processes run: what they do to the scenario, and the draws of the resumption,
  are given by the list, one element per resumption. The result is the scenario and the
  patient at the end, the entries this pathway has appended to the event log, in
  order, and the way it ended.
\<close>

datatype run_end = Crashed error | Abandoned pstate | Completed

fun run_pathway ::
  "(draws \<times> (scenario \<Rightarrow> scenario)) list \<Rightarrow> scenario \<Rightarrow> int \<Rightarrow> patient_referral \<Rightarrow> pstate
     \<Rightarrow> scenario \<times> patient_referral \<times> event list \<times> run_end" where
  "run_pathway [] s now p k = (s, p, [], Abandoned k)"
| "run_pathway ((d, others) # env) s now p k =
     (case execute_step s now d p k of
        (s1, p1, evs, Raised e) \<Rightarrow> (s1, p1, evs, Crashed e)
      | (s1, p1, evs, Return) \<Rightarrow> (s1, p1, evs, Completed)
      | (s1, p1, evs, Yield delay k1) \<Rightarrow>
          if run_length s1 \<le> now + delay then (s1, p1, evs, Abandoned k1)
          else (case run_pathway env (others s1) (now + delay) p1 k1 of
                  (s2, p2, evs2, r) \<Rightarrow> (s2, p2, evs @ evs2, r)))"

section \<open>Arrivals and results\<close>






section \<open>The states of a run\<close>






section \<open>Days with a slot\<close>



section \<open>The shape of a pathway's log\<close>

text \<open>
  Entries of the patient \<open>ident\<close> that are no appointments, and entries of that patient
  among which every appointment is at clinic \<open>c\<close>, not before \<open>tb\<close>, and, for an
  assessment, not before \<open>lo\<close>.
\<close>

definition other_events :: "int \<times> nat \<Rightarrow> event list \<Rightarrow> bool" where
  "other_events ident evs =
     list_all (\<lambda>e. ev_patient e = ident \<and> ev_event e \<noteq> have_appointment) evs"

definition attends_ok :: "int \<times> nat \<Rightarrow> nat \<Rightarrow> int \<Rightarrow> int \<Rightarrow> event list \<Rightarrow> bool" where
  "attends_ok ident c tb lo evs =
     list_all (\<lambda>e. ev_patient e = ident
                  \<and> (ev_event e = have_appointment \<longrightarrow>
                        ev_booked_clinic e = Some c \<and> tb \<le> ev_time e
                        \<and> (ev_type e = Some assessment \<longrightarrow> lo \<le> ev_time e))) evs"

text \<open>
  A log of the patient \<open>ident\<close> in which every appointment comes after the entry that
  books the assessment, at the clinic booked and not before the booking, and in which
  an assessment is not attended before \<open>lo\<close>.
\<close>

definition booked_log :: "int \<times> nat \<Rightarrow> int \<Rightarrow> event list \<Rightarrow> bool" where
  "booked_log ident lo evs \<longleftrightarrow>
     other_events ident evs
     \<or> (\<exists>pre b post c.
           evs = pre @ b # post \<and> other_events ident pre
           \<and> ev_event b = appointment_booked_waiting \<and> ev_patient b = ident
           \<and> ev_booked_clinic b = Some c \<and> attends_ok ident c (ev_time b) lo post)"

section \<open>Facts about the primitives\<close>



lemma iat_update_Inr:
  "iat_update f m i j = Inr m' \<Longrightarrow>
     \<exists>r. py_index (length m) i = Inr r \<and> r < length m \<and> j < length (m ! r)
         \<and> m' = cell_update f m r j"
  by (auto simp: iat_update_def py_index_def Let_def split: sum.splits if_splits)

lemma cell_update_other: "(d, k) \<noteq> (r, j) \<Longrightarrow> cell_update f m r j ! d ! k = m ! d ! k"
  by (cases "d = r"; cases "r < length m") (auto simp: cell_update_def list_update_beyond)


lemma length_cell_update [simp]: "length (cell_update f m r j) = length m"
  by (simp add: cell_update_def)

lemma length_row_cell_update [simp]: "length (cell_update f m r j ! d) = length (m ! d)"
  by (cases "d = r"; cases "r < length m") (auto simp: cell_update_def list_update_beyond)

section \<open>The constants\<close>

text \<open>
  C9, as stated: the constants are \<open>LOW_PRIORITY_MIN_WAIT = 7\<close>,
  \<open>HIGH_PRIORITY_MIN_WAIT = 1\<close>, the latter being the minimum wait of the high priority
  booker, and the five others. The module sets \<open>HIGH_PRIORITY_MIN_WAIT\<close> to 2, so the
  conjunction is false.
\<close>

theorem C9_constants_counterexample:
  "\<not> (LOW_PRIORITY_MIN_WAIT = 7 \<and> HIGH_PRIORITY_MIN_WAIT = 1
      \<and> min_wait HighPriorityPooledBooker = HIGH_PRIORITY_MIN_WAIT
      \<and> LOW_INTENSITY_FOLLOW_UP_TARGET_INTERVAL = 14
      \<and> HIGH_INTENSITY_FOLLOW_UP_TARGET_INTERVAL = 7
      \<and> TARGET_HIGH = 5 \<and> TARGET_LOW = 20 \<and> BOOKING_TIME_THRESHOLD = 28)"
  by (simp add: HIGH_PRIORITY_MIN_WAIT_def)

text \<open>
  C9, amended: \<open>HIGH_PRIORITY_MIN_WAIT\<close> is 2 and is not what the high priority booker
  uses: its minimum wait is the literal 1. The low priority booker starts from
  \<open>LOW_PRIORITY_MIN_WAIT = 7\<close>, and the other constants are 14, 7, 5, 20 and 28.
\<close>

theorem C9_constants:
  "LOW_PRIORITY_MIN_WAIT = 7 \<and> HIGH_PRIORITY_MIN_WAIT = 2
   \<and> min_wait HighPriorityPooledBooker = 1
   \<and> min_wait HighPriorityPooledBooker \<noteq> HIGH_PRIORITY_MIN_WAIT
   \<and> min_wait LowPriorityPooledBooker = LOW_PRIORITY_MIN_WAIT
   \<and> LOW_INTENSITY_FOLLOW_UP_TARGET_INTERVAL = 14
   \<and> HIGH_INTENSITY_FOLLOW_UP_TARGET_INTERVAL = 7
   \<and> TARGET_HIGH = 5 \<and> TARGET_LOW = 20 \<and> BOOKING_TIME_THRESHOLD = 28"
  by (simp add: LOW_PRIORITY_MIN_WAIT_def HIGH_PRIORITY_MIN_WAIT_def
      HighPriorityPooledBooker_def LowPriorityPooledBooker_def
      LOW_INTENSITY_FOLLOW_UP_TARGET_INTERVAL_def HIGH_INTENSITY_FOLLOW_UP_TARGET_INTERVAL_def
      TARGET_HIGH_def TARGET_LOW_def BOOKING_TIME_THRESHOLD_def)

section \<open>Construction of the diaries\<close>



section \<open>What a booking changes\<close>

lemma Low_book_slot_Inr:
  assumes "LowPriorityPooledBooker_book_slot s t c = Inr s'"
  shows "\<exists>r r'. py_index (length (available_slots s)) t = Inr r
           \<and> py_index (length (bookings s)) t = Inr r'
           \<and> r < length (available_slots s) \<and> c < length (available_slots s ! r)
           \<and> r' < length (bookings s) \<and> c < length (bookings s ! r')
           \<and> s' = s\<lparr>available_slots := cell_update (\<lambda>v. v - 1) (available_slots s) r c,
                     bookings := cell_update (\<lambda>v. v + 1) (bookings s) r' c\<rparr>"
proof -
  from assms obtain av bk where av: "iat_update (\<lambda>v. v - 1) (available_slots s) t c = Inr av"
    and bk: "iat_update (\<lambda>v. v + 1) (bookings s) t c = Inr bk"
    and s': "s' = s\<lparr>available_slots := av, bookings := bk\<rparr>"
    by (auto simp: LowPriorityPooledBooker_book_slot_def split: sum.splits)
  from iat_update_Inr [OF av] iat_update_Inr [OF bk] s' show ?thesis by blast
qed

lemma Repeat_book_slot_Low:
  "RepeatBooker_book_slot s b t = LowPriorityPooledBooker_book_slot s t (clinic_id b)"
  by (simp add: RepeatBooker_book_slot_def LowPriorityPooledBooker_book_slot_def)

lemma Low_book_slot_frame:
  assumes "LowPriorityPooledBooker_book_slot s t c = Inr s'"
  shows "carve_out_slots s' = carve_out_slots s
     \<and> (\<exists>r r'. py_index (length (available_slots s)) t = Inr r
           \<and> py_index (length (bookings s)) t = Inr r'
           \<and> s' = s\<lparr>available_slots := cell_update (\<lambda>v. v - 1) (available_slots s) r c,
                     bookings := cell_update (\<lambda>v. v + 1) (bookings s) r' c\<rparr>
           \<and> (\<forall>d k. (d, k) \<noteq> (r, c) \<longrightarrow>
                 available_slots s' ! d ! k = available_slots s ! d ! k)
           \<and> (\<forall>d k. (d, k) \<noteq> (r', c) \<longrightarrow> bookings s' ! d ! k = bookings s ! d ! k))"
proof -
  from Low_book_slot_Inr [OF assms] obtain r r' where
    r: "py_index (length (available_slots s)) t = Inr r"
    and r': "py_index (length (bookings s)) t = Inr r'"
    and s': "s' = s\<lparr>available_slots := cell_update (\<lambda>v. v - 1) (available_slots s) r c,
                     bookings := cell_update (\<lambda>v. v + 1) (bookings s) r' c\<rparr>"
    by blast
  from s' have "\<forall>d k. (d, k) \<noteq> (r, c) \<longrightarrow>
      available_slots s' ! d ! k = available_slots s ! d ! k"
    by (simp add: cell_update_other)
  moreover from s' have "\<forall>d k. (d, k) \<noteq> (r', c) \<longrightarrow> bookings s' ! d ! k = bookings s ! d ! k"
    by (simp add: cell_update_other)
  moreover from s' have "carve_out_slots s' = carve_out_slots s" by simp
  ultimately show ?thesis using r r' s' by blast
qed

lemma Low_book_slot_carve:
  "LowPriorityPooledBooker_book_slot s t c = Inr s' \<Longrightarrow> carve_out_slots s' = carve_out_slots s"
  by (auto dest: Low_book_slot_Inr)

lemma caseload_add_carve:
  "caseload_add s c x = Inr s' \<Longrightarrow> carve_out_slots s' = carve_out_slots s"
  by (auto simp: caseload_add_def split: if_splits)

lemma discharge_carve: "carve_out_slots (fst (discharge s now p evs)) = carve_out_slots s"
  by (auto simp: discharge_def split: sum.splits if_splits dest: caseload_add_carve)

lemma follow_up_loop_carve:
  "carve_out_slots (fst (follow_up_loop s now p evs rb i n)) = carve_out_slots s"
  by (auto simp: follow_up_loop_def discharge_carve Repeat_book_slot_Low
      split: sum.splits prod.splits dest: Low_book_slot_carve)

lemma attend_assessment_carve:
  "carve_out_slots (fst (attend_assessment s now d p best_t)) = carve_out_slots s"
  by (auto simp: attend_assessment_def Let_def discharge_carve follow_up_loop_carve
      split: sum.splits if_splits dest: caseload_add_carve)

lemma book_low_assessment_carve:
  "kind (booker p) = LowPriorityPooled \<Longrightarrow>
     carve_out_slots (fst (book_low_assessment s now p best_t c)) = carve_out_slots s"
  by (auto simp: book_low_assessment_def Let_def book_slot_def caseload_add_def
      split: sum.splits if_splits dest!: Low_book_slot_carve)

lemma execute_step_low_carve:
  "kind (booker p) = LowPriorityPooled \<Longrightarrow>
     carve_out_slots (fst (execute_step s now d p k)) = carve_out_slots s"
  by (cases k)
    (auto simp: Let_def priority_def attend_assessment_carve follow_up_loop_carve
      book_low_assessment_carve split: sum.splits prod.splits)

text \<open>
  C3: a booking for a priority 1 patient never changes the carve-out diary.
  \<^verbatim>\<open>LowPriorityPooledBooker.book_slot\<close> and \<^verbatim>\<open>RepeatBooker.book_slot\<close>, whenever they
  return, leave every field of the scenario but \<^verbatim>\<open>available_slots\<close> and \<^verbatim>\<open>bookings\<close>
  as it was, and change these two at the booked day and clinic only; and no resumption
  of the pathway of a priority 1 patient, from any suspension point and in any state of
  the scenario, changes an entry of the carve-out diary.
\<close>

theorem C3_carve_out_exclusive:
  "(LowPriorityPooledBooker_book_slot s t c = Inr s1 \<longrightarrow>
      carve_out_slots s1 = carve_out_slots s
      \<and> (\<exists>r r'. py_index (length (available_slots s)) t = Inr r
            \<and> py_index (length (bookings s)) t = Inr r'
            \<and> s1 = s\<lparr>available_slots := cell_update (\<lambda>v. v - 1) (available_slots s) r c,
                      bookings := cell_update (\<lambda>v. v + 1) (bookings s) r' c\<rparr>
            \<and> (\<forall>d k. (d, k) \<noteq> (r, c) \<longrightarrow>
                  available_slots s1 ! d ! k = available_slots s ! d ! k)
            \<and> (\<forall>d k. (d, k) \<noteq> (r', c) \<longrightarrow> bookings s1 ! d ! k = bookings s ! d ! k)))
   \<and> (RepeatBooker_book_slot s b t = Inr s2 \<longrightarrow>
      carve_out_slots s2 = carve_out_slots s
      \<and> (\<exists>r r'. py_index (length (available_slots s)) t = Inr r
            \<and> py_index (length (bookings s)) t = Inr r'
            \<and> s2 = s\<lparr>available_slots :=
                        cell_update (\<lambda>v. v - 1) (available_slots s) r (clinic_id b),
                      bookings := cell_update (\<lambda>v. v + 1) (bookings s) r' (clinic_id b)\<rparr>
            \<and> (\<forall>d k. (d, k) \<noteq> (r, clinic_id b) \<longrightarrow>
                  available_slots s2 ! d ! k = available_slots s ! d ! k)
            \<and> (\<forall>d k. (d, k) \<noteq> (r', clinic_id b) \<longrightarrow>
                  bookings s2 ! d ! k = bookings s ! d ! k)))
   \<and> (priority (booker p) = 1 \<longrightarrow>
        carve_out_slots (fst (execute_step s now d p k)) = carve_out_slots s)"
proof (intro conjI impI)
  assume "priority (booker p) = 1"
  then have "kind (booker p) = LowPriorityPooled"
    by (simp add: priority_def split: booker_kind.splits)
  then show "carve_out_slots (fst (execute_step s now d p k)) = carve_out_slots s"
    by (rule execute_step_low_carve)
qed (simp_all only: Repeat_book_slot_Low Low_book_slot_frame)

theorem C3_carve_out_exclusive_witness:
  "LowPriorityPooledBooker_book_slot
       \<lparr> run_length = 3, warm_up_period = 0, weekly_slots = [[2]], pooling_np = [[1]],
         existing_caseload = [0], carve_out_slots = [[1], [1]],
         available_slots = [[1], [1]], bookings = [[0], [0]] \<rparr> 1 0
     = Inr \<lparr> run_length = 3, warm_up_period = 0, weekly_slots = [[2]], pooling_np = [[1]],
         existing_caseload = [0], carve_out_slots = [[1], [1]],
         available_slots = [[1], [0]], bookings = [[0], [1]] \<rparr>
   \<and> RepeatBooker_book_slot
       \<lparr> run_length = 3, warm_up_period = 0, weekly_slots = [[2]], pooling_np = [[1]],
         existing_caseload = [0], carve_out_slots = [[1], [1]],
         available_slots = [[1], [1]], bookings = [[0], [0]] \<rparr> (RepeatBooker 7 0) 1
     = Inr \<lparr> run_length = 3, warm_up_period = 0, weekly_slots = [[2]], pooling_np = [[1]],
         existing_caseload = [0], carve_out_slots = [[1], [1]],
         available_slots = [[1], [0]], bookings = [[0], [1]] \<rparr>
   \<and> priority (booker (PatientReferral 0 0 LowPriorityPooledBooker (0, 0))) = 1
   \<and> carve_out_slots (fst (execute_step
         \<lparr> run_length = 3, warm_up_period = 0, weekly_slots = [[2]], pooling_np = [[1]],
           existing_caseload = [0], carve_out_slots = [[1], [1]],
           available_slots = [[1], [1]], bookings = [[0], [0]] \<rparr> 1
         \<lparr> tie_break = 0, follow_up_y = 1, intensity = 1, num_follow_ups = 2 \<rparr>
         (PatientReferral 0 0 LowPriorityPooledBooker (0, 0)) AntiLeapfrog))
     = [[1], [1]]"
proof -
  let ?s = "\<lparr> run_length = 3, warm_up_period = 0, weekly_slots = [[2]], pooling_np = [[1]],
         existing_caseload = [0], carve_out_slots = [[1], [1 :: uint8]],
         available_slots = [[1], [1]], bookings = [[0], [0]] \<rparr>"
  let ?p = "PatientReferral 0 0 LowPriorityPooledBooker (0, 0)"
  let ?d = "\<lparr> tie_break = 0, follow_up_y = 1, intensity = 1, num_follow_ups = 2 \<rparr>"
  have low: "LowPriorityPooledBooker_book_slot ?s 1 0
     = Inr (?s\<lparr>available_slots := [[1], [0]], bookings := [[0], [1]]\<rparr>)"
    by (simp add: LowPriorityPooledBooker_book_slot_def iat_update_def py_index_def
        cell_update_def)
  have rep: "RepeatBooker_book_slot ?s (RepeatBooker 7 0) 1
     = Inr (?s\<lparr>available_slots := [[1], [0]], bookings := [[0], [1]]\<rparr>)"
    by (simp add: RepeatBooker_book_slot_def RepeatBooker_def iat_update_def py_index_def
        cell_update_def)
  have prio: "priority (booker ?p) = 1"
    by (simp add: priority_def PatientReferral_def LowPriorityPooledBooker_def)
  from C3_carve_out_exclusive [of ?s 1 0 _ "RepeatBooker 7 0" _ ?p 1 ?d AntiLeapfrog] prio
  have "carve_out_slots (fst (execute_step ?s 1 ?d ?p AntiLeapfrog)) = [[1], [1]]"
    by simp
  with low rep prio show ?thesis by simp
qed

section \<open>The bookkeeping of the diaries\<close>






























section \<open>Exhausted capacity and the repeat booker\<close>



lemma scenario6:
  "Scenario 2 0 word_of_int [[1], [1], [1], [1], [1]] [[1]] [0]
     = \<lparr> run_length = 2, warm_up_period = 0, weekly_slots = [[1], [1], [1], [1], [1]],
         pooling_np = [[1]], existing_caseload = [0],
         carve_out_slots = [[1], [1], [1], [1], [1], [1], [1], [1], [1], [1],
                            [1], [1], [1], [1], [1], [1], [1], [1], [1], [1]],
         available_slots = [[0], [0], [0], [0], [0], [0], [0], [0], [0], [0],
                            [0], [0], [0], [0], [0], [0], [0], [0], [0], [0]],
         bookings = [[0], [0], [0], [0], [0], [0], [0], [0], [0], [0],
                     [0], [0], [0], [0], [0], [0], [0], [0], [0], [0]] \<rparr>"
  by (simp add: Scenario_def create_carve_out_def create_slots_def create_bookings_def
      diary_iterations_def n_columns_def Let_def numeral_eq_Suc)

text \<open>
  C6, at a failing input: one clinician with one slot a day, all of it carved out, so
  that no day has an available slot. The repeat booker for weekly follow-ups, asked on
  day 1, raises nothing: it returns day 7, the first day of its window, where the diary
  of available slots holds 0, as it does on every day of the window.
\<close>

theorem C6_repeat_booker_silent:
  "RepeatBooker_find_slot (Scenario 2 0 word_of_int [[1], [1], [1], [1], [1]] [[1]] [0])
       (RepeatBooker HIGH_INTENSITY_FOLLOW_UP_TARGET_INTERVAL 0) 1
     = Inr (7, 0)
   \<and> filter (\<lambda>row. 0 < row ! 0)
        (py_slice_from 7
           (available_slots (Scenario 2 0 word_of_int [[1], [1], [1], [1], [1]] [[1]] [0])))
     = []
   \<and> available_slots (Scenario 2 0 word_of_int [[1], [1], [1], [1], [1]] [[1]] [0]) ! 7 ! 0 = 0"
  unfolding scenario6
  by (simp add: RepeatBooker_find_slot_def RepeatBooker_def
      HIGH_INTENSITY_FOLLOW_UP_TARGET_INTERVAL_def window_columns_def py_slice_from_def
      np_argmax_def)






section \<open>The warm-up period\<close>





lemma scenario7:
  "Scenario 2 0 (\<lambda>x. 0) [[1], [1], [1], [1], [1]] [[1]] [0]
     = \<lparr> run_length = 2, warm_up_period = 0, weekly_slots = [[1], [1], [1], [1], [1]],
         pooling_np = [[1]], existing_caseload = [0],
         carve_out_slots = [[0], [0], [0], [0], [0], [0], [0], [0], [0], [0],
                            [0], [0], [0], [0], [0], [0], [0], [0], [0], [0]],
         available_slots = [[1], [1], [1], [1], [1], [1], [1], [1], [1], [1],
                            [1], [1], [1], [1], [1], [1], [1], [1], [1], [1]],
         bookings = [[0], [0], [0], [0], [0], [0], [0], [0], [0], [0],
                     [0], [0], [0], [0], [0], [0], [0], [0], [0], [0]] \<rparr>"
  by (simp add: Scenario_def create_carve_out_def create_slots_def create_bookings_def
      diary_iterations_def n_columns_def Let_def numeral_eq_Suc)





section \<open>The tie-break between clinicians\<close>

lemma scenario1:
  "Scenario 2 0 (\<lambda>x. 0) [[1, 1], [1, 1], [1, 1], [1, 1], [1, 1]] [[1, 1], [1, 1]] [0, 0]
     = \<lparr> run_length = 2, warm_up_period = 0,
         weekly_slots = [[1, 1], [1, 1], [1, 1], [1, 1], [1, 1]],
         pooling_np = [[1, 1], [1, 1]], existing_caseload = [0, 0],
         carve_out_slots = [[0, 0], [0, 0], [0, 0], [0, 0], [0, 0], [0, 0], [0, 0], [0, 0],
                            [0, 0], [0, 0], [0, 0], [0, 0], [0, 0], [0, 0], [0, 0], [0, 0],
                            [0, 0], [0, 0], [0, 0], [0, 0]],
         available_slots = [[1, 1], [1, 1], [1, 1], [1, 1], [1, 1], [1, 1], [1, 1], [1, 1],
                            [1, 1], [1, 1], [1, 1], [1, 1], [1, 1], [1, 1], [1, 1], [1, 1],
                            [1, 1], [1, 1], [1, 1], [1, 1]],
         bookings = [[0, 0], [0, 0], [0, 0], [0, 0], [0, 0], [0, 0], [0, 0], [0, 0],
                     [0, 0], [0, 0], [0, 0], [0, 0], [0, 0], [0, 0], [0, 0], [0, 0],
                     [0, 0], [0, 0], [0, 0], [0, 0]] \<rparr>"
  by (simp add: Scenario_def create_carve_out_def create_slots_def create_bookings_def
      diary_iterations_def n_columns_def Let_def numeral_eq_Suc)

text \<open>
  C1, at a failing input: two clinicians who pool with each other, one slot each a day,
  and a high priority patient referred on day 0. Both clinicians are free on day 1, and
  \<^verbatim>\<open>find_slot\<close> chooses between them with \<^verbatim>\<open>random.randint\<close>, on the generator of the
  module \<^verbatim>\<open>random\<close>, which the program never seeds. With the scenario, the patient
  and the samples of the seeded distributions the same, the event log records clinician
  0 for one draw of that generator and clinician 1 for another.
\<close>

theorem C1_tie_break_outside_seed_vector:
  "map (\<lambda>e. (ev_event e, ev_booked_clinic e))
     (fst (snd (snd (run_pathway
        [(\<lparr> tie_break = 0, follow_up_y = 1, intensity = 1, num_follow_ups = 3 \<rparr>, id)]
        (Scenario 2 0 (\<lambda>x. 0) [[1, 1], [1, 1], [1, 1], [1, 1], [1, 1]] [[1, 1], [1, 1]] [0, 0])
        0 (PatientReferral 0 0 HighPriorityPooledBooker (0, 0)) Start))))
     = [(arrival, None), (waiting_appointment_to_be_scheduled, None),
        (appointment_booked_waiting, Some 0)]
   \<and> map (\<lambda>e. (ev_event e, ev_booked_clinic e))
     (fst (snd (snd (run_pathway
        [(\<lparr> tie_break = 1, follow_up_y = 1, intensity = 1, num_follow_ups = 3 \<rparr>, id)]
        (Scenario 2 0 (\<lambda>x. 0) [[1, 1], [1, 1], [1, 1], [1, 1], [1, 1]] [[1, 1], [1, 1]] [0, 0])
        0 (PatientReferral 0 0 HighPriorityPooledBooker (0, 0)) Start))))
     = [(arrival, None), (waiting_appointment_to_be_scheduled, None),
        (appointment_booked_waiting, Some 1)]"
  unfolding scenario1
  by (simp add: Let_def PatientReferral_def priority_def HighPriorityPooledBooker_def
      find_slot_def HighPriorityPooledBooker_find_slot_def clinic_options_of_def where_eq_one_def
      window_columns_def py_slice_from_def add_windows_def np_broadcast2_def pooled_choice_def
      day_has_slot_def py_randint_def book_slot_def HighPriorityPooledBooker_book_slot_def
      iat_get_def iat_update_def py_index_def cell_update_def timeout_def
      log_entry_def booked_entry_def)

section \<open>Bookings come before appointments\<close>


lemma Low_find_slot_ge:
  "LowPriorityPooledBooker_find_slot s b r t c choice = Inr (day, cl) \<Longrightarrow> t + min_wait b \<le> day"
  by (auto simp: LowPriorityPooledBooker_find_slot_def split: sum.splits prod.splits)

lemma High_find_slot_ge:
  "HighPriorityPooledBooker_find_slot s b r t c choice = Inr (day, cl) \<Longrightarrow> t + min_wait b \<le> day"
  by (auto simp: HighPriorityPooledBooker_find_slot_def split: sum.splits prod.splits)

lemma Repeat_find_slot_ge:
  "RepeatBooker_find_slot s b t = Inr (day, cl) \<Longrightarrow>
     t + repeat_min_wait b \<le> day \<and> cl = clinic_id b"
  by (auto simp: RepeatBooker_find_slot_def split: sum.splits)

lemma find_slot_ge: "find_slot s b r t c choice = Inr (day, cl) \<Longrightarrow> t + min_wait b \<le> day"
  by (auto simp: find_slot_def split: booker_kind.splits dest: Low_find_slot_ge High_find_slot_ge)

lemma other_events_Nil [simp]: "other_events ident []"
  by (simp add: other_events_def)

lemma attends_ok_Nil [simp]: "attends_ok ident c tb lo []"
  by (simp add: attends_ok_def)

lemma attends_ok_append:
  "attends_ok ident c tb lo (xs @ ys) \<longleftrightarrow> attends_ok ident c tb lo xs \<and> attends_ok ident c tb lo ys"
  by (simp add: attends_ok_def)

lemma other_events_attends_ok: "other_events ident evs \<Longrightarrow> attends_ok ident c tb lo evs"
  by (simp add: other_events_def attends_ok_def list_all_iff)

lemma attends_ok_mono:
  "attends_ok ident c tb lo evs \<Longrightarrow> tb' \<le> tb \<Longrightarrow> lo' \<le> lo \<Longrightarrow> attends_ok ident c tb' lo' evs"
  by (fastforce simp: attends_ok_def list_all_iff)

lemma discharge_out:
  assumes "discharge s now p evs0 = (s1, p1, evs, out)"
  shows "p1 = p \<and> (\<exists>extra. evs = evs0 @ extra \<and> other_events (patient_id p) extra)
     \<and> (\<forall>delay k. out \<noteq> Yield delay k)"
  using assms
  by (auto simp: discharge_def other_events_def log_entry_def split: sum.splits if_splits)

lemma follow_up_loop_out:
  assumes "follow_up_loop s now p evs0 rb i n = (s1, p1, evs, out)"
  shows "p1 = p \<and> (\<exists>extra. evs = evs0 @ extra \<and> other_events (patient_id p) extra)
     \<and> (\<forall>delay k. out = Yield delay k \<longrightarrow> 0 \<le> delay \<and> (\<exists>i'. k = AwaitFollowUp rb i' n delay))"
proof (cases "int i < n")
  case False
  with assms have "discharge s now p evs0 = (s1, p1, evs, out)"
    by (simp add: follow_up_loop_def)
  from discharge_out [OF this] show ?thesis by blast
next
  case True
  with assms show ?thesis
    by (auto simp: follow_up_loop_def timeout_def other_events_def follow_up_entry_def
        booked_entry_def log_entry_def split: sum.splits prod.splits if_splits)
qed

lemma attend_assessment_out:
  assumes "attend_assessment s now d p best_t = (s1, p1, evs, out)"
  shows "patient_id p1 = patient_id p \<and> booked_clinic p1 = booked_clinic p
     \<and> (\<exists>a extra. evs = a # extra \<and> ev_event a = have_appointment
           \<and> ev_patient a = patient_id p \<and> ev_booked_clinic a = Some (booked_clinic p)
           \<and> ev_time a = now \<and> other_events (patient_id p) extra)
     \<and> (\<forall>delay k. out = Yield delay k \<longrightarrow>
           0 \<le> delay \<and> (\<exists>rb i n iv. k = AwaitFollowUp rb i n iv))"
proof (cases "follow_up_y d \<noteq> 0")
  case False
  with assms have "discharge s now (p\<lparr>waiting_time := Some (best_t - referral_t p)\<rparr>)
      [(booked_entry (p\<lparr>waiting_time := Some (best_t - referral_t p)\<rparr>) have_appointment now)
         \<lparr>ev_type := Some assessment,
           ev_wait := waiting_time (p\<lparr>waiting_time := Some (best_t - referral_t p)\<rparr>)\<rparr>]
      = (s1, p1, evs, out)"
    by (simp add: attend_assessment_def Let_def)
  from discharge_out [OF this] show ?thesis
    by (auto simp: booked_entry_def log_entry_def)
next
  case True
  let ?p2 = "p\<lparr>waiting_time := Some (best_t - referral_t p),
               follow_up_intensity := Some (intensity d)\<rparr>"
  let ?a = "(booked_entry (p\<lparr>waiting_time := Some (best_t - referral_t p)\<rparr>) have_appointment now)
         \<lparr>ev_type := Some assessment,
           ev_wait := waiting_time (p\<lparr>waiting_time := Some (best_t - referral_t p)\<rparr>)\<rparr>"
  from assms True have "(\<exists>e s'. (s1, p1, evs, out) = (s', ?p2, [?a], Raised e))
     \<or> (\<exists>s' rb. follow_up_loop s' now ?p2 [?a] rb 0 (num_follow_ups d) = (s1, p1, evs, out))"
    by (auto simp: attend_assessment_def Let_def split: sum.splits if_splits)
  then show ?thesis
  proof (elim disjE exE)
    fix e s'
    assume "(s1, p1, evs, out) = (s', ?p2, [?a], Raised e)"
    then show ?thesis by (auto simp: booked_entry_def log_entry_def)
  next
    fix s' rb
    assume "follow_up_loop s' now ?p2 [?a] rb 0 (num_follow_ups d) = (s1, p1, evs, out)"
    from follow_up_loop_out [OF this] show ?thesis
      by (auto simp: booked_entry_def log_entry_def)
  qed
qed


lemma run_follow_up:
  "run_pathway env s now p (AwaitFollowUp rb i n iv) = (s', p', evs, r) \<Longrightarrow> tb \<le> now \<Longrightarrow>
     attends_ok (patient_id p) (booked_clinic p) tb lo evs"
proof (induction env arbitrary: s now i iv evs s' p' r)
  case Nil
  then show ?case by simp
next
  case (Cons x env)
  obtain d others where x: "x = (d, others)" by (cases x)
  let ?f = "(follow_up_entry p have_appointment now i n)
          \<lparr>ev_type := Some follow_up_appointment, ev_interval := Some iv\<rparr>"
  obtain s1 p1 evs1 out where step:
    "follow_up_loop s now p [?f] rb (Suc i) n = (s1, p1, evs1, out)"
    by (cases "follow_up_loop s now p [?f] rb (Suc i) n") auto
  from follow_up_loop_out [OF step] obtain extra where
    p1: "p1 = p" and evs1: "evs1 = ?f # extra" and extra: "other_events (patient_id p) extra"
    and out: "\<forall>delay k. out = Yield delay k \<longrightarrow> 0 \<le> delay \<and> (\<exists>i'. k = AwaitFollowUp rb i' n delay)"
    by auto
  from Cons.prems(2) extra have ok1: "attends_ok (patient_id p) (booked_clinic p) tb lo evs1"
    unfolding evs1
    by (simp add: attends_ok_def other_events_def list_all_iff follow_up_entry_def
        booked_entry_def log_entry_def)
  show ?case
  proof (cases out)
    case (Raised e)
    with Cons.prems(1) x step ok1 show ?thesis by simp
  next
    case Return
    with Cons.prems(1) x step ok1 show ?thesis by simp
  next
    case (Yield delay k)
    with out obtain i' where k: "k = AwaitFollowUp rb i' n delay" and delay: "0 \<le> delay" by auto
    show ?thesis
    proof (cases "run_length s1 \<le> now + delay")
      case True
      with Cons.prems(1) x step Yield ok1 show ?thesis by simp
    next
      case False
      obtain s2 p2 evs2 r2 where rest:
        "run_pathway env (others s1) (now + delay) p (AwaitFollowUp rb i' n delay) = (s2, p2, evs2, r2)"
        by (cases "run_pathway env (others s1) (now + delay) p (AwaitFollowUp rb i' n delay)") auto
      from Cons.prems(2) delay have "tb \<le> now + delay" by simp
      from Cons.IH [OF rest this] have "attends_ok (patient_id p) (booked_clinic p) tb lo evs2" .
      moreover from Cons.prems(1) x step Yield k p1 False rest have "evs = evs1 @ evs2" by simp
      ultimately show ?thesis using ok1 by (simp add: attends_ok_append)
    qed
  qed
qed

lemma run_assessment:
  assumes "run_pathway env s now p (AwaitAssessment best_t) = (s', p', evs, r)"
    and "tb \<le> now" and "lo \<le> now"
  shows "attends_ok (patient_id p) (booked_clinic p) tb lo evs"
proof (cases env)
  case Nil
  with assms(1) show ?thesis by simp
next
  case (Cons x env')
  obtain d others where x: "x = (d, others)" by (cases x)
  obtain s1 p1 evs1 out where step: "attend_assessment s now d p best_t = (s1, p1, evs1, out)"
    by (cases "attend_assessment s now d p best_t") auto
  from attend_assessment_out [OF step] obtain a extra where
    p1: "patient_id p1 = patient_id p" "booked_clinic p1 = booked_clinic p"
    and evs1: "evs1 = a # extra" and a: "ev_event a = have_appointment" "ev_patient a = patient_id p"
      "ev_booked_clinic a = Some (booked_clinic p)" "ev_time a = now"
    and extra: "other_events (patient_id p) extra"
    and out: "\<forall>delay k. out = Yield delay k \<longrightarrow> 0 \<le> delay \<and> (\<exists>rb i n iv. k = AwaitFollowUp rb i n iv)"
    by auto
  from assms(2,3) a extra have ok1: "attends_ok (patient_id p) (booked_clinic p) tb lo evs1"
    unfolding evs1 by (simp add: attends_ok_def other_events_def list_all_iff)
  show ?thesis
  proof (cases out)
    case (Raised e)
    with assms(1) Cons x step ok1 show ?thesis by simp
  next
    case Return
    with assms(1) Cons x step ok1 show ?thesis by simp
  next
    case (Yield delay k)
    with out obtain rb i n iv where k: "k = AwaitFollowUp rb i n iv" and delay: "0 \<le> delay"
      by blast
    show ?thesis
    proof (cases "run_length s1 \<le> now + delay")
      case True
      with assms(1) Cons x step Yield ok1 show ?thesis by simp
    next
      case False
      obtain s2 p2 evs2 r2 where rest:
        "run_pathway env' (others s1) (now + delay) p1 (AwaitFollowUp rb i n iv) = (s2, p2, evs2, r2)"
        by (cases "run_pathway env' (others s1) (now + delay) p1 (AwaitFollowUp rb i n iv)") auto
      from assms(2) delay have "tb \<le> now + delay" by simp
      from run_follow_up [OF rest this, of lo] p1
      have "attends_ok (patient_id p) (booked_clinic p) tb lo evs2" by simp
      moreover from assms(1) Cons x step Yield k False rest have "evs = evs1 @ evs2" by simp
      ultimately show ?thesis using ok1 by (simp add: attends_ok_append)
    qed
  qed
qed


lemma book_low_assessment_out:
  assumes "book_low_assessment s now p best_t c = (s1, p1, evs, out)"
  shows "p1 = p\<lparr>booked_clinic := c\<rparr>
     \<and> ((evs = [] \<and> (\<exists>e. out = Raised e))
        \<or> (evs = [booked_entry p1 appointment_booked_waiting now]
           \<and> ((\<exists>e. out = Raised e)
              \<or> (out = Yield (best_t - referral_t p) (AwaitAssessment best_t)
                 \<and> 0 \<le> best_t - referral_t p))))"
  using assms
  by (auto simp: book_low_assessment_def Let_def timeout_def split: sum.splits if_splits)

lemma booked_log_other: "other_events ident evs \<Longrightarrow> booked_log ident lo evs"
  by (simp add: booked_log_def)

lemma booked_log_prepend:
  "other_events ident pre \<Longrightarrow> booked_log ident lo evs \<Longrightarrow> booked_log ident lo (pre @ evs)"
  unfolding booked_log_def
proof (elim disjE exE conjE)
  assume "other_events ident pre" "other_events ident evs"
  then show "other_events ident (pre @ evs) \<or>
    (\<exists>pre' b post c. pre @ evs = pre' @ b # post \<and> other_events ident pre'
       \<and> ev_event b = appointment_booked_waiting \<and> ev_patient b = ident
       \<and> ev_booked_clinic b = Some c \<and> attends_ok ident c (ev_time b) lo post)"
    by (simp add: other_events_def)
next
  fix pre0 b post c
  assume "other_events ident pre" "evs = pre0 @ b # post" "other_events ident pre0"
    "ev_event b = appointment_booked_waiting" "ev_patient b = ident"
    "ev_booked_clinic b = Some c" "attends_ok ident c (ev_time b) lo post"
  then have "pre @ evs = (pre @ pre0) @ b # post \<and> other_events ident (pre @ pre0)
       \<and> ev_event b = appointment_booked_waiting \<and> ev_patient b = ident
       \<and> ev_booked_clinic b = Some c \<and> attends_ok ident c (ev_time b) lo post"
    by (simp add: other_events_def)
  then show "other_events ident (pre @ evs) \<or>
    (\<exists>pre' b post c. pre @ evs = pre' @ b # post \<and> other_events ident pre'
       \<and> ev_event b = appointment_booked_waiting \<and> ev_patient b = ident
       \<and> ev_booked_clinic b = Some c \<and> attends_ok ident c (ev_time b) lo post)"
    by blast
qed

lemma booked_log_booking:
  assumes "ev_event b = appointment_booked_waiting" "ev_patient b = ident"
    "ev_booked_clinic b = Some c" "attends_ok ident c (ev_time b) lo post"
  shows "booked_log ident lo (b # post)"
proof -
  from assms have "b # post = [] @ b # post \<and> other_events ident []
       \<and> ev_event b = appointment_booked_waiting \<and> ev_patient b = ident
       \<and> ev_booked_clinic b = Some c \<and> attends_ok ident c (ev_time b) lo post"
    by simp
  then show ?thesis unfolding booked_log_def by blast
qed

lemma run_pathway_Cons:
  assumes "run_pathway ((d, others) # env) s now p k = (s', p', evs, r)"
    and "execute_step s now d p k = (s1, p1, evs1, out)"
  shows "evs = evs1
     \<or> (\<exists>delay k1 s2 p2 evs2 r2. out = Yield delay k1
           \<and> run_pathway env (others s1) (now + delay) p1 k1 = (s2, p2, evs2, r2)
           \<and> evs = evs1 @ evs2)"
proof (cases out)
  case (Raised e)
  with assms show ?thesis by (simp del: execute_step.simps)
next
  case Return
  with assms show ?thesis by (simp del: execute_step.simps)
next
  case (Yield delay k1)
  show ?thesis
  proof (cases "run_length s1 \<le> now + delay")
    case True
    with assms Yield show ?thesis by (simp del: execute_step.simps)
  next
    case False
    obtain s2 p2 evs2 r2 where rest:
      "run_pathway env (others s1) (now + delay) p1 k1 = (s2, p2, evs2, r2)"
      by (cases "run_pathway env (others s1) (now + delay) p1 k1") auto
    with assms Yield False have "evs = evs1 @ evs2" by (simp del: execute_step.simps)
    with Yield rest show ?thesis by blast
  qed
qed

text \<open>The pathway from a booking made at time \<open>now\<close> for day \<open>best_t\<close> on.\<close>

lemma run_booked:
  assumes pre: "other_events (patient_id p) pre"
    and out: "(\<exists>e. out = Raised e)
       \<or> (out = Yield (best_t - referral_t p) (AwaitAssessment best_t) \<and> 0 \<le> best_t - referral_t p)"
    and run: "evs = pre @ [booked_entry (p\<lparr>booked_clinic := c\<rparr>) appointment_booked_waiting now]
       \<or> (\<exists>delay k1 s2 p2 evs2 r2. out = Yield delay k1
           \<and> run_pathway env sa (now + delay) (p\<lparr>booked_clinic := c\<rparr>) k1 = (s2, p2, evs2, r2)
           \<and> evs = (pre @ [booked_entry (p\<lparr>booked_clinic := c\<rparr>) appointment_booked_waiting now])
                    @ evs2)"
    and lo: "lo \<le> now + (best_t - referral_t p)"
  shows "booked_log (patient_id p) lo evs"
proof -
  let ?p1 = "p\<lparr>booked_clinic := c\<rparr>"
  let ?b = "booked_entry ?p1 appointment_booked_waiting now"
  have b: "ev_event ?b = appointment_booked_waiting" "ev_patient ?b = patient_id p"
    "ev_booked_clinic ?b = Some c" "ev_time ?b = now"
    by (simp_all add: booked_entry_def log_entry_def)
  have "\<exists>post. evs = pre @ ?b # post \<and> attends_ok (patient_id p) c now lo post"
    using run
  proof (elim disjE exE conjE)
    assume "evs = pre @ [?b]"
    then have "evs = pre @ ?b # [] \<and> attends_ok (patient_id p) c now lo []" by simp
    then show ?thesis by blast
  next
    fix delay k1 s2 p2 evs2 r2
    assume y: "out = Yield delay k1"
      and rest: "run_pathway env sa (now + delay) ?p1 k1 = (s2, p2, evs2, r2)"
      and evs: "evs = (pre @ [?b]) @ evs2"
    from y out have d: "delay = best_t - referral_t p" "k1 = AwaitAssessment best_t" "0 \<le> delay"
      by auto
    from d have "now \<le> now + delay" by simp
    moreover from lo d have "lo \<le> now + delay" by simp
    ultimately have "attends_ok (patient_id ?p1) (booked_clinic ?p1) now lo evs2"
      using rest d(2) run_assessment by blast
    with evs have "evs = pre @ ?b # evs2 \<and> attends_ok (patient_id p) c now lo evs2" by simp
    then show ?thesis by blast
  qed
  then obtain post where "evs = pre @ ?b # post" "attends_ok (patient_id p) c now lo post"
    by blast
  with b have "booked_log (patient_id p) lo (?b # post)" by (simp add: booked_log_booking)
  with pre \<open>evs = pre @ ?b # post\<close> show ?thesis by (simp add: booked_log_prepend)
qed

lemma run_headroom:
  "run_pathway env s now p AwaitHeadroom = (s', p', evs, r) \<Longrightarrow> referral_t p \<le> now \<Longrightarrow>
     lo \<le> referral_t p + min_wait (booker p) \<Longrightarrow> booked_log (patient_id p) lo evs"
proof (induction env arbitrary: s now evs s' p' r)
  case Nil
  then show ?case by (simp add: booked_log_other)
next
  case (Cons x env)
  obtain d others where x: "x = (d, others)" by (cases x)
  obtain s1 p1 evs1 out where step: "execute_step s now d p AwaitHeadroom = (s1, p1, evs1, out)"
    by (cases "execute_step s now d p AwaitHeadroom") auto
  from Cons.prems(1) x have run: "run_pathway ((d, others) # env) s now p AwaitHeadroom = (s', p', evs, r)"
    by simp
  note cons = run_pathway_Cons [OF run step]
  show ?case
  proof (cases "check_for_availability s")
    case (Inl e)
    with step have "evs1 = []" "\<exists>e. out = Raised e" by auto
    with cons show ?thesis by (auto simp: booked_log_other)
  next
    case (Inr a)
    obtain cws ac where a: "a = (cws, ac)" by (cases a)
    show ?thesis
    proof (cases "cws = 0")
      case True
      with Inr a step have st: "s1 = s" "p1 = p" "evs1 = []" "out = Yield 1 AwaitHeadroom"
        by (simp_all add: timeout_def)
      from cons show ?thesis
      proof (elim disjE exE conjE)
        assume "evs = evs1"
        with st show ?thesis by (simp add: booked_log_other)
      next
        fix delay k1 s2 p2 evs2 r2
        assume "out = Yield delay k1"
          and rest: "run_pathway env (others s1) (now + delay) p1 k1 = (s2, p2, evs2, r2)"
          and evs: "evs = evs1 @ evs2"
        with st have rest': "run_pathway env (others s) (now + 1) p AwaitHeadroom = (s2, p2, evs2, r2)"
          by simp
        from Cons.prems(2) have "referral_t p \<le> now + 1" by simp
        from Cons.IH [OF rest' this Cons.prems(3)] evs st show ?thesis by simp
      qed
    next
      case False
      show ?thesis
      proof (cases "find_slot s (booker p) (tie_break d) now (home_clinic p) (Some (headroom_mask ac))")
        case (Inl e)
        with Inr a False step have "evs1 = []" "\<exists>e. out = Raised e" by auto
        with cons show ?thesis by (auto simp: booked_log_other)
      next
        case found: (Inr f)
        obtain best_t c where f: "f = (best_t, c)" by (cases f)
        from found f have ge: "now + min_wait (booker p) \<le> best_t" by (auto dest: find_slot_ge)
        from Inr a False found f step
        have bk: "book_low_assessment s now p best_t c = (s1, p1, evs1, out)" by simp
        from book_low_assessment_out [OF bk] have p1: "p1 = p\<lparr>booked_clinic := c\<rparr>"
          and alt: "(evs1 = [] \<and> (\<exists>e. out = Raised e))
            \<or> (evs1 = [booked_entry p1 appointment_booked_waiting now]
               \<and> ((\<exists>e. out = Raised e)
                  \<or> (out = Yield (best_t - referral_t p) (AwaitAssessment best_t)
                     \<and> 0 \<le> best_t - referral_t p)))"
          by blast+
        from alt show ?thesis
        proof
          assume "evs1 = [] \<and> (\<exists>e. out = Raised e)"
          with cons show ?thesis by (auto simp: booked_log_other)
        next
          assume b: "evs1 = [booked_entry p1 appointment_booked_waiting now]
               \<and> ((\<exists>e. out = Raised e)
                  \<or> (out = Yield (best_t - referral_t p) (AwaitAssessment best_t)
                     \<and> 0 \<le> best_t - referral_t p))"
          from Cons.prems(2,3) ge have lo: "lo \<le> now + (best_t - referral_t p)" by simp
          from cons p1 b have run': "evs = [] @ [booked_entry (p\<lparr>booked_clinic := c\<rparr>) appointment_booked_waiting now]
             \<or> (\<exists>delay k1 s2 p2 evs2 r2. out = Yield delay k1
                 \<and> run_pathway env (others s1) (now + delay) (p\<lparr>booked_clinic := c\<rparr>) k1 = (s2, p2, evs2, r2)
                 \<and> evs = ([] @ [booked_entry (p\<lparr>booked_clinic := c\<rparr>) appointment_booked_waiting now])
                          @ evs2)"
            by simp
          from b have out: "(\<exists>e. out = Raised e)
               \<or> (out = Yield (best_t - referral_t p) (AwaitAssessment best_t)
                  \<and> 0 \<le> best_t - referral_t p)" by simp
          show ?thesis
            by (rule run_booked [OF other_events_Nil out run' lo])
        qed
      qed
    qed
  qed
qed


lemma run_anti_leapfrog:
  assumes run: "run_pathway env s now p AntiLeapfrog = (s', p', evs, r)"
    and now: "referral_t p \<le> now"
    and lo: "lo \<le> referral_t p + min_wait (booker p) - 1"
  shows "booked_log (patient_id p) lo evs"
proof (cases env)
  case Nil
  with run show ?thesis by (simp add: booked_log_other)
next
  case (Cons x env')
  obtain d others where x: "x = (d, others)" by (cases x)
  let ?p1 = "p\<lparr>booker := (booker p)\<lparr>min_wait := min_wait (booker p) - 1\<rparr>\<rparr>"
  obtain s1 p1 evs1 out where step: "execute_step s now d p AntiLeapfrog = (s1, p1, evs1, out)"
    by (cases "execute_step s now d p AntiLeapfrog") auto
  from run Cons x have run': "run_pathway ((d, others) # env') s now p AntiLeapfrog = (s', p', evs, r)"
    by simp
  note cons = run_pathway_Cons [OF run' step]
  show ?thesis
  proof (cases "check_for_availability s")
    case (Inl e)
    with step have "evs1 = []" "\<exists>e. out = Raised e" by (auto simp: Let_def)
    with cons show ?thesis by (auto simp: booked_log_other)
  next
    case (Inr a)
    obtain cws ac where a: "a = (cws, ac)" by (cases a)
    show ?thesis
    proof (cases "0 < cws")
      case False
      let ?p2 = "?p1\<lparr>booker := (booker ?p1)\<lparr>min_wait := min_wait (booker ?p1) + 1\<rparr>\<rparr>"
      from False Inr a step have st: "s1 = s" "p1 = ?p2" "evs1 = []" "out = Yield 1 AwaitHeadroom"
        by (simp_all add: timeout_def Let_def)
      from cons show ?thesis
      proof (elim disjE exE conjE)
        assume "evs = evs1"
        with st show ?thesis by (simp add: booked_log_other)
      next
        fix delay k1 s2 p2 evs2 r2
        assume "out = Yield delay k1"
          and rest: "run_pathway env' (others s1) (now + delay) p1 k1 = (s2, p2, evs2, r2)"
          and evs: "evs = evs1 @ evs2"
        with st have rest': "run_pathway env' (others s) (now + 1) ?p2 AwaitHeadroom = (s2, p2, evs2, r2)"
          by simp
        from now have n: "referral_t ?p2 \<le> now + 1" by simp
        from lo have l: "lo \<le> referral_t ?p2 + min_wait (booker ?p2)" by simp
        from run_headroom [OF rest' n l] evs st show ?thesis by simp
      qed
    next
      case True
      show ?thesis
      proof (cases "find_slot s (booker ?p1) (tie_break d) (referral_t ?p1) (home_clinic ?p1)
                      (Some (headroom_mask ac))")
        case (Inl e)
        with Inr a True step have "evs1 = []" "\<exists>e. out = Raised e" by (auto simp: Let_def)
        with cons show ?thesis by (auto simp: booked_log_other)
      next
        case found: (Inr f)
        obtain best_t c where f: "f = (best_t, c)" by (cases f)
        from found f have ge: "referral_t p + (min_wait (booker p) - 1) \<le> best_t"
          by (auto dest: find_slot_ge)
        from Inr a True found f step
        have bk: "book_low_assessment s now ?p1 best_t c = (s1, p1, evs1, out)"
          by (simp add: Let_def)
        from book_low_assessment_out [OF bk] have p1: "p1 = ?p1\<lparr>booked_clinic := c\<rparr>"
          and alt: "(evs1 = [] \<and> (\<exists>e. out = Raised e))
            \<or> (evs1 = [booked_entry p1 appointment_booked_waiting now]
               \<and> ((\<exists>e. out = Raised e)
                  \<or> (out = Yield (best_t - referral_t ?p1) (AwaitAssessment best_t)
                     \<and> 0 \<le> best_t - referral_t ?p1)))"
          by blast+
        from alt show ?thesis
        proof
          assume "evs1 = [] \<and> (\<exists>e. out = Raised e)"
          with cons show ?thesis by (auto simp: booked_log_other)
        next
          assume b: "evs1 = [booked_entry p1 appointment_booked_waiting now]
               \<and> ((\<exists>e. out = Raised e)
                  \<or> (out = Yield (best_t - referral_t ?p1) (AwaitAssessment best_t)
                     \<and> 0 \<le> best_t - referral_t ?p1))"
          from now lo ge have lo': "lo \<le> now + (best_t - referral_t ?p1)" by simp
          from cons p1 b have run'': "evs = [] @ [booked_entry (?p1\<lparr>booked_clinic := c\<rparr>) appointment_booked_waiting now]
             \<or> (\<exists>delay k1 s2 p2 evs2 r2. out = Yield delay k1
                 \<and> run_pathway env' (others s1) (now + delay) (?p1\<lparr>booked_clinic := c\<rparr>) k1 = (s2, p2, evs2, r2)
                 \<and> evs = ([] @ [booked_entry (?p1\<lparr>booked_clinic := c\<rparr>) appointment_booked_waiting now])
                          @ evs2)"
            by simp
          from b have out: "(\<exists>e. out = Raised e)
               \<or> (out = Yield (best_t - referral_t ?p1) (AwaitAssessment best_t)
                  \<and> 0 \<le> best_t - referral_t ?p1)" by simp
          have "booked_log (patient_id ?p1) lo evs"
            by (rule run_booked [OF _ out run'' lo']) simp
          then show ?thesis by simp
        qed
      qed
    qed
  qed
qed

lemma run_start:
  assumes run: "run_pathway env s (referral_t p) p Start = (s', p', evs, r)"
    and b: "booker p = HighPriorityPooledBooker \<or> booker p = LowPriorityPooledBooker"
  shows "booked_log (patient_id p)
     (referral_t p + (if priority (booker p) = 2 then 1 else 6)) evs"
proof (cases env)
  case Nil
  with run show ?thesis by (simp add: booked_log_other)
next
  case (Cons x env')
  obtain d others where x: "x = (d, others)" by (cases x)
  let ?now = "referral_t p"
  let ?pre = "[log_entry p arrival_departure arrival ?now,
               log_entry p queue waiting_appointment_to_be_scheduled ?now]"
  have pre: "other_events (patient_id p) ?pre"
    by (simp add: other_events_def log_entry_def)
  obtain s1 p1 evs1 out where step: "execute_step s ?now d p Start = (s1, p1, evs1, out)"
    by (cases "execute_step s ?now d p Start") auto
  from run Cons x have run': "run_pathway ((d, others) # env') s ?now p Start = (s', p', evs, r)"
    by simp
  note cons = run_pathway_Cons [OF run' step]
  from b show ?thesis
  proof
    assume low: "booker p = LowPriorityPooledBooker"
    then have prio: "priority (booker p) = 1"
      by (simp add: priority_def LowPriorityPooledBooker_def)
    with step have st: "s1 = s" "p1 = p" "evs1 = ?pre" "out = Yield 1 AntiLeapfrog"
      by (auto simp: Let_def timeout_def)
    from cons show ?thesis
    proof (elim disjE exE conjE)
      assume "evs = evs1"
      with st pre show ?thesis by (simp add: booked_log_other)
    next
      fix delay k1 s2 p2 evs2 r2
      assume "out = Yield delay k1"
        and rest: "run_pathway env' (others s1) (?now + delay) p1 k1 = (s2, p2, evs2, r2)"
        and evs: "evs = evs1 @ evs2"
      with st have rest': "run_pathway env' (others s) (?now + 1) p AntiLeapfrog = (s2, p2, evs2, r2)"
        by simp
      from low have "referral_t p + 6 \<le> referral_t p + min_wait (booker p) - 1"
        by (simp add: LowPriorityPooledBooker_def LOW_PRIORITY_MIN_WAIT_def)
      from run_anti_leapfrog [OF rest' _ this] have "booked_log (patient_id p) (referral_t p + 6) evs2"
        by simp
      with pre have "booked_log (patient_id p) (referral_t p + 6) (?pre @ evs2)"
        by (rule booked_log_prepend)
      with evs st prio show ?thesis by simp
    qed
  next
    assume high: "booker p = HighPriorityPooledBooker"
    then have prio: "priority (booker p) = 2"
      by (simp add: priority_def HighPriorityPooledBooker_def)
    show ?thesis
    proof (cases "find_slot s (booker p) (tie_break d) (referral_t p) (home_clinic p) None")
      case (Inl e)
      with prio step have "evs1 = ?pre" "\<exists>e. out = Raised e" by (auto simp: Let_def)
      with cons pre show ?thesis by (auto simp: booked_log_other)
    next
      case found: (Inr f)
      obtain best_t c where f: "f = (best_t, c)" by (cases f)
      from found f high have ge: "referral_t p + 1 \<le> best_t"
        by (auto dest: find_slot_ge simp: HighPriorityPooledBooker_def)
      show ?thesis
      proof (cases "book_slot s (booker (p\<lparr>booked_clinic := c\<rparr>)) best_t c")
        case (Inl e)
        with prio found f step have "evs1 = ?pre" "\<exists>e. out = Raised e" by (auto simp: Let_def)
        with cons pre show ?thesis by (auto simp: booked_log_other)
      next
        case (Inr sb)
        with prio found f step have st: "s1 = sb" "p1 = p\<lparr>booked_clinic := c\<rparr>"
          "evs1 = ?pre @ [booked_entry (p\<lparr>booked_clinic := c\<rparr>) appointment_booked_waiting ?now]"
          "out = timeout (best_t - referral_t p) (AwaitAssessment best_t)"
          by (auto simp: Let_def)
        from st(4) have out: "(\<exists>e. out = Raised e)
               \<or> (out = Yield (best_t - referral_t p) (AwaitAssessment best_t)
                  \<and> 0 \<le> best_t - referral_t p)"
          by (simp add: timeout_def)
        from ge have lo: "referral_t p + 1 \<le> ?now + (best_t - referral_t p)" by simp
        from cons st have run'': "evs = ?pre @ [booked_entry (p\<lparr>booked_clinic := c\<rparr>) appointment_booked_waiting ?now]
             \<or> (\<exists>delay k1 s2 p2 evs2 r2. out = Yield delay k1
                 \<and> run_pathway env' (others s1) (?now + delay) (p\<lparr>booked_clinic := c\<rparr>) k1 = (s2, p2, evs2, r2)
                 \<and> evs = (?pre @ [booked_entry (p\<lparr>booked_clinic := c\<rparr>) appointment_booked_waiting ?now])
                          @ evs2)"
          by simp
        have "booked_log (patient_id p) (referral_t p + 1) evs"
          by (rule run_booked [OF pre out run'' lo])
        with prio show ?thesis by simp
      qed
    qed
  qed
qed


lemma booked_log_index:
  assumes log: "booked_log ident lo evs" and i: "i < length evs"
    and a: "ev_event (evs ! i) = have_appointment"
  shows "\<exists>j < i. ev_event (evs ! j) = appointment_booked_waiting
           \<and> ev_patient (evs ! j) = ev_patient (evs ! i)
           \<and> ev_booked_clinic (evs ! j) = ev_booked_clinic (evs ! i)
           \<and> ev_time (evs ! j) \<le> ev_time (evs ! i)"
  using log unfolding booked_log_def
proof (elim disjE exE conjE)
  assume "other_events ident evs"
  with i a show ?thesis by (auto simp: other_events_def list_all_length)
next
  fix pre b post c
  assume evs: "evs = pre @ b # post" and pre: "other_events ident pre"
    and b: "ev_event b = appointment_booked_waiting" "ev_patient b = ident"
      "ev_booked_clinic b = Some c"
    and post: "attends_ok ident c (ev_time b) lo post"
  from pre a evs have "\<not> i < length pre"
    by (auto simp: other_events_def list_all_length nth_append)
  moreover from b a evs have "i \<noteq> length pre" by auto
  ultimately have gt: "length pre < i" by simp
  then obtain m where m: "i = length pre + Suc m" by (metis less_imp_Suc_add add_Suc_right)
  with evs i have k: "evs ! i = post ! m" "m < length post"
    by (simp_all add: nth_append)
  with post a have "ev_patient (evs ! i) = ident" "ev_booked_clinic (evs ! i) = Some c"
    "ev_time b \<le> ev_time (evs ! i)"
    by (auto simp: attends_ok_def list_all_length)
  moreover from evs have "evs ! length pre = b" by simp
  ultimately show ?thesis using gt b by auto
qed

lemma booked_log_assessment:
  assumes log: "booked_log ident lo evs" and e: "e \<in> set evs"
    and a: "ev_event e = have_appointment" "ev_type e = Some assessment"
  shows "lo \<le> ev_time e"
  using log unfolding booked_log_def
proof (elim disjE exE conjE)
  assume "other_events ident evs"
  with e a show ?thesis by (auto simp: other_events_def list_all_iff)
next
  fix pre b post c
  assume evs: "evs = pre @ b # post" and pre: "other_events ident pre"
    and b: "ev_event b = appointment_booked_waiting"
    and post: "attends_ok ident c (ev_time b) lo post"
  from e evs pre b a have "e \<in> set post"
    by (auto simp: other_events_def list_all_iff)
  with post a show ?thesis by (auto simp: attends_ok_def list_all_iff)
qed

text \<open>
  C2: in the log of the pathway of a patient referred at time \<open>t\<close> with a fresh high or
  low priority booker, however long the run and whatever the other processes do to the
  scenario in between, every \<^verbatim>\<open>have_appointment\<close> entry is preceded by an
  \<^verbatim>\<open>appointment_booked_waiting\<close> entry of the same patient with the same booked clinic
  and a time that is not later; an assessment is attended at least 1 day after the
  referral for priority 2 and at least 6 days after it for priority 1; and whenever
  \<^verbatim>\<open>find_slot\<close> of one of the three bookers returns a day, the day is at least
  \<open>t + min_wait\<close> for the booker's current \<open>min_wait\<close>.
\<close>

theorem C2_booked_before_attended:
  assumes "run_pathway env s t (PatientReferral t home b ident) Start = (s', p', evs, r)"
    and "b = HighPriorityPooledBooker \<or> b = LowPriorityPooledBooker"
  shows "(\<forall>i < length evs. ev_event (evs ! i) = have_appointment \<longrightarrow>
            (\<exists>j < i. ev_event (evs ! j) = appointment_booked_waiting
                \<and> ev_patient (evs ! j) = ev_patient (evs ! i)
                \<and> ev_booked_clinic (evs ! j) = ev_booked_clinic (evs ! i)
                \<and> ev_time (evs ! j) \<le> ev_time (evs ! i)))
     \<and> (\<forall>e \<in> set evs. ev_event e = have_appointment \<and> ev_type e = Some assessment \<longrightarrow>
            (if priority b = 2 then 1 else 6) \<le> ev_time e - t)
     \<and> (LowPriorityPooledBooker_find_slot sc bk rd tm c choice = Inr (day, cl) \<longrightarrow>
            tm + min_wait bk \<le> day)
     \<and> (HighPriorityPooledBooker_find_slot sc bk rd tm c choice = Inr (day, cl) \<longrightarrow>
            tm + min_wait bk \<le> day)
     \<and> (RepeatBooker_find_slot sc rb tm = Inr (day, cl) \<longrightarrow> tm + repeat_min_wait rb \<le> day)"
proof -
  let ?p = "PatientReferral t home b ident"
  from assms have "booked_log (patient_id ?p)
      (referral_t ?p + (if priority (booker ?p) = 2 then 1 else 6)) evs"
    by (intro run_start [of env s ?p s' p' evs r]) (simp_all add: PatientReferral_def)
  then have log: "booked_log ident (t + (if priority b = 2 then 1 else 6)) evs"
    by (simp add: PatientReferral_def)
  have "\<forall>i < length evs. ev_event (evs ! i) = have_appointment \<longrightarrow>
            (\<exists>j < i. ev_event (evs ! j) = appointment_booked_waiting
                \<and> ev_patient (evs ! j) = ev_patient (evs ! i)
                \<and> ev_booked_clinic (evs ! j) = ev_booked_clinic (evs ! i)
                \<and> ev_time (evs ! j) \<le> ev_time (evs ! i))"
    using booked_log_index [OF log] by blast
  moreover have "\<forall>e \<in> set evs. ev_event e = have_appointment \<and> ev_type e = Some assessment \<longrightarrow>
            (if priority b = 2 then 1 else 6) \<le> ev_time e - t"
    using booked_log_assessment [OF log] by fastforce
  ultimately show ?thesis
    using Low_find_slot_ge [of sc bk rd tm c choice day cl]
      High_find_slot_ge [of sc bk rd tm c choice day cl]
      Repeat_find_slot_ge [of sc rb tm day cl]
    by blast
qed


theorem C2_booked_before_attended_witness:
  "map (\<lambda>e. (ev_event e, ev_type e, ev_booked_clinic e, ev_time e))
     (fst (snd (snd (run_pathway
        [(\<lparr> tie_break = 0, follow_up_y = 0, intensity = 0, num_follow_ups = 0 \<rparr>, id),
         (\<lparr> tie_break = 0, follow_up_y = 0, intensity = 0, num_follow_ups = 0 \<rparr>, id)]
        (Scenario 2 0 (\<lambda>x. 0) [[1], [1], [1], [1], [1]] [[1]] [0]) 0
        (PatientReferral 0 0 HighPriorityPooledBooker (0, 0)) Start))))
     = [(arrival, None, None, 0), (waiting_appointment_to_be_scheduled, None, None, 0),
        (appointment_booked_waiting, None, Some 0, 0),
        (have_appointment, Some assessment, Some 0, 1), (depart, None, None, 2)]
   \<and> (\<exists>j < 3.
         ev_event (fst (snd (snd (run_pathway
            [(\<lparr> tie_break = 0, follow_up_y = 0, intensity = 0, num_follow_ups = 0 \<rparr>, id),
             (\<lparr> tie_break = 0, follow_up_y = 0, intensity = 0, num_follow_ups = 0 \<rparr>, id)]
            (Scenario 2 0 (\<lambda>x. 0) [[1], [1], [1], [1], [1]] [[1]] [0]) 0
            (PatientReferral 0 0 HighPriorityPooledBooker (0, 0)) Start))) ! j)
           = appointment_booked_waiting
         \<and> ev_booked_clinic (fst (snd (snd (run_pathway
            [(\<lparr> tie_break = 0, follow_up_y = 0, intensity = 0, num_follow_ups = 0 \<rparr>, id),
             (\<lparr> tie_break = 0, follow_up_y = 0, intensity = 0, num_follow_ups = 0 \<rparr>, id)]
            (Scenario 2 0 (\<lambda>x. 0) [[1], [1], [1], [1], [1]] [[1]] [0]) 0
            (PatientReferral 0 0 HighPriorityPooledBooker (0, 0)) Start))) ! j)
           = Some 0)
   \<and> HighPriorityPooledBooker_find_slot (Scenario 2 0 (\<lambda>x. 0) [[1], [1], [1], [1], [1]] [[1]] [0])
        HighPriorityPooledBooker 0 0 0 None = Inr (1, 0)
   \<and> 0 + min_wait HighPriorityPooledBooker \<le> 1"
proof -
  let ?s = "Scenario 2 0 (\<lambda>x. 0) [[1], [1], [1], [1], [1]] [[1]] [0]"
  let ?d = "\<lparr> tie_break = 0, follow_up_y = 0, intensity = 0, num_follow_ups = 0 \<rparr>"
  let ?run = "run_pathway [(?d, id), (?d, id)] ?s 0
      (PatientReferral 0 0 HighPriorityPooledBooker (0, 0)) Start"
  let ?evs = "fst (snd (snd ?run))"
  have log: "map (\<lambda>e. (ev_event e, ev_type e, ev_booked_clinic e, ev_time e)) ?evs
     = [(arrival, None, None, 0), (waiting_appointment_to_be_scheduled, None, None, 0),
        (appointment_booked_waiting, None, Some 0, 0),
        (have_appointment, Some assessment, Some 0, 1), (depart, None, None, 2)]"
    unfolding scenario7
    by (simp add: Let_def PatientReferral_def priority_def HighPriorityPooledBooker_def
        find_slot_def HighPriorityPooledBooker_find_slot_def clinic_options_of_def where_eq_one_def
        window_columns_def py_slice_from_def add_windows_def np_broadcast2_def pooled_choice_def
        day_has_slot_def py_randint_def book_slot_def HighPriorityPooledBooker_book_slot_def
        iat_get_def iat_update_def py_index_def cell_update_def timeout_def
        attend_assessment_def discharge_def log_entry_def booked_entry_def)
  have find: "HighPriorityPooledBooker_find_slot ?s HighPriorityPooledBooker 0 0 0 None = Inr (1, 0)"
    unfolding scenario7
    by (simp add: HighPriorityPooledBooker_def
        HighPriorityPooledBooker_find_slot_def clinic_options_of_def where_eq_one_def
        window_columns_def py_slice_from_def add_windows_def np_broadcast2_def pooled_choice_def
        day_has_slot_def py_randint_def)
  obtain s' p' evs r where run: "?run = (s', p', evs, r)"
    by (cases ?run) auto
  then have evs: "?evs = evs" by (simp del: run_pathway.simps)
  have b: "HighPriorityPooledBooker = HighPriorityPooledBooker
      \<or> HighPriorityPooledBooker = LowPriorityPooledBooker" by simp
  note inst = C2_booked_before_attended [OF run b,
      of ?s HighPriorityPooledBooker 0 0 0 None 1 0 "RepeatBooker 7 0"]
  from log evs have log': "map (\<lambda>e. (ev_event e, ev_type e, ev_booked_clinic e, ev_time e)) evs
     = [(arrival, None, None, 0), (waiting_appointment_to_be_scheduled, None, None, 0),
        (appointment_booked_waiting, None, Some 0, 0),
        (have_appointment, Some assessment, Some 0, 1), (depart, None, None, 2)]"
    by (simp del: run_pathway.simps)
  from arg_cong [OF log', of length] have len: "3 < length evs" by simp
  then have "map (\<lambda>e. (ev_event e, ev_type e, ev_booked_clinic e, ev_time e)) evs ! 3
      = (ev_event (evs ! 3), ev_type (evs ! 3), ev_booked_clinic (evs ! 3), ev_time (evs ! 3))"
    by simp
  with log' have third: "ev_event (evs ! 3) = have_appointment"
    "ev_booked_clinic (evs ! 3) = Some 0"
    by simp_all
  from inst have "\<forall>i < length evs. ev_event (evs ! i) = have_appointment \<longrightarrow>
            (\<exists>j < i. ev_event (evs ! j) = appointment_booked_waiting
                \<and> ev_patient (evs ! j) = ev_patient (evs ! i)
                \<and> ev_booked_clinic (evs ! j) = ev_booked_clinic (evs ! i)
                \<and> ev_time (evs ! j) \<le> ev_time (evs ! i))"
    by blast
  with len third have "\<exists>j < 3. ev_event (evs ! j) = appointment_booked_waiting
      \<and> ev_booked_clinic (evs ! j) = Some 0"
    by metis
  with evs have one: "\<exists>j < 3. ev_event (?evs ! j) = appointment_booked_waiting
      \<and> ev_booked_clinic (?evs ! j) = Some 0"
    by (simp del: run_pathway.simps)
  from inst find have two: "0 + min_wait HighPriorityPooledBooker \<le> 1"
    by blast
  from log one find two show ?thesis by blast
qed

section \<open>The policy of the high priority booker\<close>

























end
